theory Spec2Isabelle
  imports Main "HOL-Library.Word"
begin

unbundle bit_operations_syntax

section \<open>Data model of the kernel thread code (core/hle/kernel/thread.cpp)\<close>

text \<open>
  Thread objects live on the C++ heap and are reached through shared pointers. The
  heap is the list \<open>threads\<close> of the kernel state and a pointer to a thread is its
  index in that list. A scheduler is identified with the index of its core.
  Fixed-width integers are words: \<open>u32\<close> priorities and handles, \<open>s32\<close> core numbers
  (a word read with \<open>sint\<close> where the code compares it as signed), \<open>u64\<close> addresses
  and masks. The saved register context, the thread's name and its tick counter are
  left out: nothing below reads them.
\<close>

datatype ThreadStatus =
    Running | Ready | WaitHLEEvent | WaitSleep | WaitIPC | WaitSynchAny | WaitSynchAll
  | WaitMutex | WaitArb | Dormant | Dead

record Thread =
  thread_id :: "32 word"
  status :: ThreadStatus
  entry_point :: "64 word"
  stack_top :: "64 word"
  nominal_priority :: "32 word"
  current_priority :: "32 word"
  processor_id :: "32 word"
  ideal_core :: "32 word"
  affinity_mask :: "64 word"
  wait_objects :: "nat list"
  wakeup_callback :: "nat option"
  lock_owner :: "nat option"
  wait_mutex_threads :: "nat list"
  mutex_wait_address :: "64 word"
  condvar_wait_address :: "64 word"
  wait_handle :: "32 word"
  arb_wait_address :: "64 word"
  callback_handle :: "32 word"
  tls_address :: "64 word"
  scheduler :: nat

text \<open>
  Calls into collaborators whose code is not part of thread.cpp (the per-core
  schedulers, the timing queue, wait objects, the CPU cores, the memory manager) are
  recorded, in order, as events.
\<close>

datatype event =
    UnscheduleEvent "32 word"
  | AddThread nat nat "32 word"
  | RemoveThread nat nat
  | ScheduleThread nat nat "32 word"
  | UnscheduleThread nat nat "32 word"
  | SetThreadPriority nat nat "32 word"
  | PrepareReschedule nat
  | RemoveWaitingThread nat nat
  | WakeupAllWaitingThreads nat
  | MapMemoryBlock "64 word"

text \<open>
  \<open>cores\<close> holds, for each core, what \<open>Scheduler(i)->GetCurrentThread()\<close> returns;
  its length is \<open>NUM_CPU_CORES\<close>. \<open>tls_slots\<close> is the \<open>std::vector<std::bitset<8>>\<close>
  of the process. The handle table of the wakeup callbacks is a list of handle and
  thread pairs: \<open>Get\<close> looks a handle up, \<open>Close\<close> removes it.
\<close>

record Kernel =
  threads :: "Thread list"
  cores :: "nat option list"
  wakeup_callback_handle_table :: "(32 word \<times> nat) list"
  next_thread_id :: "32 word"
  tls_slots :: "8 word list"
  events :: "event list"

text \<open>
  Constants and macros declared in headers that are not among the sources
  (thread.h, memory.h, assert.h) are parameters: the priority bounds, the largest
  processor id, the layout of the TLS area, the address check of the memory
  subsystem, and whether \<open>DEBUG_ASSERT_MSG\<close> is compiled in.
\<close>

record Config =
  THREADPRIO_HIGHEST :: "32 word"
  THREADPRIO_LOWEST :: "32 word"
  THREADPROCESSORID_MAX :: int
  TLS_AREA_VADDR :: "64 word"
  PAGE_SIZE :: "64 word"
  TLS_ENTRY_SIZE :: "64 word"
  IsValidVirtualAddress :: "64 word \<Rightarrow> bool"
  debug_asserts :: bool

text \<open>
  A failed \<open>ASSERT\<close> ends the emulation session. A pointer or index outside its
  container has no defined behaviour in C++; the model stops there as well.
\<close>

datatype fault = AssertionFailed | BadPointer | OutOfBounds | UndefinedShift | DivisionByZero

datatype ResultCode = ERR_OUT_OF_RANGE | ERR_OUT_OF_RANGE_KERNEL | RawResultCode "32 word"

datatype ThreadWakeupReason = Signal | Timeout

definition bindF :: "fault + 'a \<Rightarrow> ('a \<Rightarrow> fault + 'b) \<Rightarrow> fault + 'b" where
  "bindF m f = (case m of Inl e \<Rightarrow> Inl e | Inr x \<Rightarrow> f x)"

definition get_thread :: "Kernel \<Rightarrow> nat \<Rightarrow> Thread option" where
  "get_thread s t = (if t < length (threads s) then Some (threads s ! t) else None)"

definition upd_thread :: "nat \<Rightarrow> (Thread \<Rightarrow> Thread) \<Rightarrow> Kernel \<Rightarrow> Kernel" where
  "upd_thread t f s = s\<lparr>threads := (threads s)[t := f (threads s ! t)]\<rparr>"

definition emit :: "event \<Rightarrow> Kernel \<Rightarrow> Kernel" where
  "emit e s = s\<lparr>events := events s @ [e]\<rparr>"

text \<open>\<open>System::Scheduler(core_index)\<close> and \<open>System::CpuCore(core_index)\<close>: the
  \<open>s32\<close> argument converts to \<open>size_t\<close>, so a negative one is out of range.\<close>

definition Scheduler :: "Kernel \<Rightarrow> 32 word \<Rightarrow> nat option" where
  "Scheduler s core_index =
     (if 0 \<le> sint core_index \<and> nat (sint core_index) < length (cores s)
      then Some (nat (sint core_index)) else None)"

definition CpuCore :: "Kernel \<Rightarrow> 32 word \<Rightarrow> nat option" where
  "CpuCore s core_index =
     (if 0 \<le> sint core_index \<and> nat (sint core_index) < length (cores s)
      then Some (nat (sint core_index)) else None)"

section \<open>Core placement\<close>

text \<open>\<open>GetNextProcessorId\<close>: the loop over the cores, from index 0.\<close>

fun scan_cores :: "64 word \<Rightarrow> nat option list \<Rightarrow> nat \<Rightarrow> nat option" where
  "scan_cores msk [] index = None"
| "scan_cores msk (cur # rest) index =
     (if msk AND push_bit index 1 \<noteq> 0 \<and> cur = None then Some index
      else scan_cores msk rest (Suc index))"

definition GetNextProcessorId :: "Kernel \<Rightarrow> 64 word \<Rightarrow> 32 word option" where
  "GetNextProcessorId s msk = map_option of_nat (scan_cores msk (cores s) 0)"

definition ResumeFromWait :: "Config \<Rightarrow> Kernel \<Rightarrow> nat \<Rightarrow> fault + Kernel" where
  "ResumeFromWait cfg s t =
     (case get_thread s t of
        None \<Rightarrow> Inl BadPointer
      | Some th \<Rightarrow>
          if wait_objects th \<noteq> [] then Inl AssertionFailed
          else if status th = Ready then
            (if wakeup_callback th \<noteq> None then Inl AssertionFailed else Inr s)
          else if status th = Running then
            (if debug_asserts cfg then Inl AssertionFailed else Inr s)
          else if status th = Dead then
            (if debug_asserts cfg then Inl AssertionFailed else Inr s)
          else
            let th = th\<lparr>wakeup_callback := None, status := Ready\<rparr>;
                free_core = (case GetNextProcessorId s (affinity_mask th) of
                               None \<Rightarrow> processor_id th
                             | Some i \<Rightarrow> i)
            in bindF
                 (if ideal_core th \<noteq> - 1 then
                    (case Scheduler s (ideal_core th) of
                       None \<Rightarrow> Inl OutOfBounds
                     | Some c \<Rightarrow> Inr (if cores s ! c = None then ideal_core th else free_core))
                  else Inr free_core)
                 (\<lambda>new_processor_id.
                    if \<not> sint new_processor_id < 4 then Inl AssertionFailed
                    else
                      (case Scheduler s new_processor_id of
                         None \<Rightarrow> Inl OutOfBounds
                       | Some next_scheduler \<Rightarrow>
                           let s = (if new_processor_id \<noteq> processor_id th
                                    then emit (AddThread next_scheduler t (current_priority th))
                                           (emit (RemoveThread (scheduler th) t) s)
                                    else s);
                               th = th\<lparr>processor_id := new_processor_id\<rparr>;
                               s = emit (UnscheduleThread (scheduler th) t (current_priority th)) s;
                               s = emit (ScheduleThread next_scheduler t (current_priority th)) s;
                               th = th\<lparr>scheduler := next_scheduler\<rparr>
                           in (case CpuCore s (processor_id th) of
                                 None \<Rightarrow> Inl OutOfBounds
                               | Some cpu \<Rightarrow>
                                   Inr (upd_thread t (\<lambda>_. th) (emit (PrepareReschedule cpu) s))))))"

definition ChangeCore :: "Kernel \<Rightarrow> nat \<Rightarrow> 32 word \<Rightarrow> 64 word \<Rightarrow> fault + Kernel" where
  "ChangeCore s t core msk =
     (case get_thread s t of
        None \<Rightarrow> Inl BadPointer
      | Some th \<Rightarrow>
          let th = th\<lparr>ideal_core := core, affinity_mask := msk\<rparr> in
          if status th \<noteq> Ready then Inr (upd_thread t (\<lambda>_. th) s)
          else
            let free_core = (case GetNextProcessorId s (affinity_mask th) of
                               None \<Rightarrow> processor_id th
                             | Some i \<Rightarrow> i)
            in bindF
                 (if ideal_core th \<noteq> - 1 then
                    (case Scheduler s (ideal_core th) of
                       None \<Rightarrow> Inl OutOfBounds
                     | Some c \<Rightarrow> Inr (if cores s ! c = None then ideal_core th else free_core))
                  else Inr free_core)
                 (\<lambda>new_processor_id.
                    if \<not> sint new_processor_id < 4 then Inl AssertionFailed
                    else
                      (case Scheduler s new_processor_id of
                         None \<Rightarrow> Inl OutOfBounds
                       | Some next_scheduler \<Rightarrow>
                           let s = (if new_processor_id \<noteq> processor_id th
                                    then emit (AddThread next_scheduler t (current_priority th))
                                           (emit (RemoveThread (scheduler th) t) s)
                                    else s);
                               th = th\<lparr>processor_id := new_processor_id\<rparr>;
                               s = emit (UnscheduleThread (scheduler th) t (current_priority th)) s;
                               s = emit (ScheduleThread next_scheduler t (current_priority th)) s;
                               th = th\<lparr>scheduler := next_scheduler\<rparr>
                           in (case CpuCore s (processor_id th) of
                                 None \<Rightarrow> Inl OutOfBounds
                               | Some cpu \<Rightarrow>
                                   Inr (upd_thread t (\<lambda>_. th) (emit (PrepareReschedule cpu) s))))))"

section \<open>Priority inheritance\<close>

text \<open>The loop of \<open>UpdatePriority\<close> over \<open>wait_mutex_threads\<close>, started at the
  thread's own nominal priority.\<close>

fun highest_priority :: "Thread list \<Rightarrow> 32 word \<Rightarrow> nat list \<Rightarrow> 32 word" where
  "highest_priority ths new_priority [] = new_priority"
| "highest_priority ths new_priority (w # ws) =
     highest_priority ths
       (if nominal_priority (ths ! w) < new_priority then nominal_priority (ths ! w)
        else new_priority) ws"

text \<open>A thread is stale when \<open>UpdatePriority\<close> would change its current priority.
  The number of stale threads bounds the depth of the recursion into lock owners.\<close>

definition stale :: "Thread list \<Rightarrow> nat \<Rightarrow> bool" where
  "stale ths t =
     (list_all (\<lambda>w. w < length ths) (wait_mutex_threads (ths ! t)) \<and>
      highest_priority ths (nominal_priority (ths ! t)) (wait_mutex_threads (ths ! t))
        \<noteq> current_priority (ths ! t))"

definition stale_count :: "Kernel \<Rightarrow> nat" where
  "stale_count s = length (filter (stale (threads s)) [0..<length (threads s)])"

lemma highest_priority_cong:
  "\<forall>w\<in>set ws. nominal_priority (ths' ! w) = nominal_priority (ths ! w) \<Longrightarrow>
   highest_priority ths' p ws = highest_priority ths p ws"
  by (induction ws arbitrary: p) auto

lemma filter_length_less:
  "\<forall>x\<in>set xs. P x \<longrightarrow> Q x \<Longrightarrow> \<exists>x\<in>set xs. Q x \<and> \<not> P x \<Longrightarrow>
   length (filter P xs) < length (filter Q xs)"
proof (induction xs)
  case Nil
  then show ?case by simp
next
  case (Cons a xs)
  have le: "length (filter P xs) \<le> length (filter Q xs)"
    using Cons.prems(1) by (induction xs) auto
  show ?case
  proof (cases "\<exists>x\<in>set xs. Q x \<and> \<not> P x")
    case True
    then have "length (filter P xs) < length (filter Q xs)"
      using Cons.IH Cons.prems(1) by simp
    then show ?thesis using Cons.prems(1) by auto
  next
    case False
    then have "Q a \<and> \<not> P a" using Cons.prems(2) by auto
    then show ?thesis using le by simp
  qed
qed

lemma stale_count_decreases:
  assumes t: "t < length (threads s)"
    and ok: "list_all (\<lambda>w. w < length (threads s)) (wait_mutex_threads (threads s ! t))"
    and np: "np = highest_priority (threads s) (nominal_priority (threads s ! t))
                    (wait_mutex_threads (threads s ! t))"
    and ne: "np \<noteq> current_priority (threads s ! t)"
  shows "stale_count (upd_thread t (\<lambda>x. x\<lparr>current_priority := np\<rparr>) (emit e s)) < stale_count s"
proof -
  let ?ths = "threads s"
  let ?ths' = "?ths[t := (?ths ! t)\<lparr>current_priority := np\<rparr>]"
  have thr: "threads (upd_thread t (\<lambda>x. x\<lparr>current_priority := np\<rparr>) (emit e s)) = ?ths'"
    by (simp add: upd_thread_def emit_def)
  have nom: "nominal_priority (?ths' ! i) = nominal_priority (?ths ! i)" for i
    using t by (cases "i = t") auto
  have wm: "wait_mutex_threads (?ths' ! i) = wait_mutex_threads (?ths ! i)" for i
    using t by (cases "i = t") auto
  have hp: "highest_priority ?ths' p ws = highest_priority ?ths p ws" for p ws
    by (rule highest_priority_cong) (simp add: nom)
  have cur: "i \<noteq> t \<Longrightarrow> current_priority (?ths' ! i) = current_priority (?ths ! i)" for i
    by simp
  have curt: "current_priority (?ths' ! t) = np" using t by simp
  have 1: "\<forall>i\<in>set [0..<length ?ths]. stale ?ths' i \<longrightarrow> stale ?ths i"
  proof (intro ballI impI)
    fix i assume "i \<in> set [0..<length ?ths]" and st: "stale ?ths' i"
    show "stale ?ths i"
    proof (cases "i = t")
      case True
      then show ?thesis using ok ne np by (simp add: stale_def)
    next
      case False
      then show ?thesis
        using st unfolding stale_def hp wm nom by (simp del: nth_list_update_neq add: cur)
    qed
  qed
  have 2: "\<exists>i\<in>set [0..<length ?ths]. stale ?ths i \<and> \<not> stale ?ths' i"
  proof (intro bexI[of _ t] conjI)
    show "stale ?ths t" using ok ne np by (simp add: stale_def)
    show "\<not> stale ?ths' t" unfolding stale_def hp wm nom curt using np by simp
    show "t \<in> set [0..<length ?ths]" using t by simp
  qed
  show ?thesis
    unfolding stale_count_def thr using filter_length_less[OF 1 2] by simp
qed

function UpdatePriority :: "Kernel \<Rightarrow> nat \<Rightarrow> fault + Kernel" where
  "UpdatePriority s t =
     (if \<not> t < length (threads s) then Inl BadPointer
      else
        let th = threads s ! t in
        if \<not> list_all (\<lambda>w. w < length (threads s)) (wait_mutex_threads th) then Inl BadPointer
        else
          let new_priority =
                highest_priority (threads s) (nominal_priority th) (wait_mutex_threads th)
          in
            if new_priority = current_priority th then Inr s
            else
              let s' = upd_thread t (\<lambda>x. x\<lparr>current_priority := new_priority\<rparr>)
                         (emit (SetThreadPriority (scheduler th) t new_priority) s)
              in (case lock_owner th of
                    None \<Rightarrow> Inr s'
                  | Some owner \<Rightarrow> UpdatePriority s' owner))"
  by pat_completeness auto
termination
  by (relation "measure (\<lambda>(s, t). stale_count s)") (auto intro: stale_count_decreases)

declare UpdatePriority.simps [simp del]

definition SetPriority :: "Config \<Rightarrow> Kernel \<Rightarrow> nat \<Rightarrow> 32 word \<Rightarrow> fault + Kernel" where
  "SetPriority cfg s t priority =
     (if \<not> t < length (threads s) then Inl BadPointer
      else if \<not> (priority \<le> THREADPRIO_LOWEST cfg \<and> priority \<ge> THREADPRIO_HIGHEST cfg)
      then Inl AssertionFailed
      else UpdatePriority (upd_thread t (\<lambda>x. x\<lparr>nominal_priority := priority\<rparr>) s) t)"

definition BoostPriority :: "Kernel \<Rightarrow> nat \<Rightarrow> 32 word \<Rightarrow> fault + Kernel" where
  "BoostPriority s t priority =
     (case get_thread s t of
        None \<Rightarrow> Inl BadPointer
      | Some th \<Rightarrow>
          Inr (upd_thread t (\<lambda>x. x\<lparr>current_priority := priority\<rparr>)
                 (emit (SetThreadPriority (scheduler th) t priority) s)))"

text \<open>\<open>owner\<close> is \<open>this\<close>, \<open>thread\<close> the argument. The two may be the same object, so
  every write goes through the heap.\<close>

definition AddMutexWaiter :: "Kernel \<Rightarrow> nat \<Rightarrow> nat \<Rightarrow> fault + Kernel" where
  "AddMutexWaiter s owner thread =
     (if \<not> owner < length (threads s) \<or> \<not> thread < length (threads s) then Inl BadPointer
      else if lock_owner (threads s ! thread) = Some owner then
        (if thread \<in> set (wait_mutex_threads (threads s ! owner)) then Inr s
         else Inl AssertionFailed)
      else if lock_owner (threads s ! thread) \<noteq> None then Inl AssertionFailed
      else if thread \<in> set (wait_mutex_threads (threads s ! owner)) then Inl AssertionFailed
      else
        let s = upd_thread thread (\<lambda>x. x\<lparr>lock_owner := Some owner\<rparr>) s;
            s = upd_thread owner
                  (\<lambda>x. x\<lparr>wait_mutex_threads := wait_mutex_threads x @ [thread]\<rparr>) s
        in UpdatePriority s owner)"

definition RemoveMutexWaiter :: "Kernel \<Rightarrow> nat \<Rightarrow> nat \<Rightarrow> fault + Kernel" where
  "RemoveMutexWaiter s owner thread =
     (if \<not> owner < length (threads s) \<or> \<not> thread < length (threads s) then Inl BadPointer
      else if lock_owner (threads s ! thread) \<noteq> Some owner then Inl AssertionFailed
      else if thread \<notin> set (wait_mutex_threads (threads s ! owner)) then Inl AssertionFailed
      else
        let s = upd_thread owner
                  (\<lambda>x. x\<lparr>wait_mutex_threads := removeAll thread (wait_mutex_threads x)\<rparr>) s;
            s = upd_thread thread (\<lambda>x. x\<lparr>lock_owner := None\<rparr>) s
        in UpdatePriority s owner)"

section \<open>Stopping a thread\<close>

definition Stop :: "Config \<Rightarrow> Kernel \<Rightarrow> nat \<Rightarrow> fault + Kernel" where
  "Stop cfg s t =
     (case get_thread s t of
        None \<Rightarrow> Inl BadPointer
      | Some th \<Rightarrow>
          let s = emit (UnscheduleEvent (callback_handle th)) s;
              s = s\<lparr>wakeup_callback_handle_table :=
                      filter (\<lambda>e. fst e \<noteq> callback_handle th) (wakeup_callback_handle_table s)\<rparr>;
              s = upd_thread t (\<lambda>x. x\<lparr>callback_handle := 0\<rparr>) s;
              s = (if status th = Ready
                   then emit (UnscheduleThread (scheduler th) t (current_priority th)) s
                   else s);
              s = upd_thread t (\<lambda>x. x\<lparr>status := Dead\<rparr>) s;
              s = emit (WakeupAllWaitingThreads t) s;
              s = fold (\<lambda>obj. emit (RemoveWaitingThread obj t)) (wait_objects th) s;
              s = upd_thread t (\<lambda>x. x\<lparr>wait_objects := []\<rparr>) s
          in if PAGE_SIZE cfg = 0 \<or> TLS_ENTRY_SIZE cfg = 0 then Inl DivisionByZero
             else
               let tls_page = (tls_address th - TLS_AREA_VADDR cfg) div PAGE_SIZE cfg;
                   tls_slot = ((tls_address th - TLS_AREA_VADDR cfg) mod PAGE_SIZE cfg)
                                div TLS_ENTRY_SIZE cfg
               in if \<not> unat tls_page < length (tls_slots s) \<or> \<not> unat tls_slot < 8
                  then Inl OutOfBounds
                  else Inr (s\<lparr>tls_slots := (tls_slots s)[unat tls_page :=
                                 unset_bit (unat tls_slot) (tls_slots s ! unat tls_page)]\<rparr>))"

section \<open>Creating a thread\<close>

text \<open>\<open>GetFreeThreadLocalSlot\<close>: the outer loop over the pages, the inner one over
  the eight slots of a page that is not full.\<close>

fun find_free_page :: "8 word list \<Rightarrow> nat \<Rightarrow> (nat \<times> nat) option" where
  "find_free_page [] page = None"
| "find_free_page (page_tls_slots # rest) page =
     (if page_tls_slots \<noteq> - 1 then
        (case find (\<lambda>slot. \<not> bit page_tls_slots slot) [0..<8] of
           Some slot \<Rightarrow> Some (page, slot)
         | None \<Rightarrow> find_free_page rest (Suc page))
      else find_free_page rest (Suc page))"

definition GetFreeThreadLocalSlot :: "8 word list \<Rightarrow> nat \<times> nat \<times> bool" where
  "GetFreeThreadLocalSlot tls =
     (case find_free_page tls 0 of
        Some (page, slot) \<Rightarrow> (page, slot, False)
      | None \<Rightarrow> (0, 0, True))"

text \<open>
  \<open>Thread::Create\<close>. The handle that \<open>wakeup_callback_handle_table.Create\<close> hands out
  is the argument \<open>new_handle\<close> (the table's code is not part of thread.cpp). The
  members that \<open>Create\<close> does not assign keep the values of a fresh object: no
  callback, no lock owner, no waiters. The result pairs the kernel state with the
  \<open>ResultVal\<close>.
\<close>

definition Create ::
  "Config \<Rightarrow> Kernel \<Rightarrow> 32 word \<Rightarrow> 64 word \<Rightarrow> 32 word \<Rightarrow> 32 word \<Rightarrow> 64 word
     \<Rightarrow> fault + Kernel \<times> (ResultCode + nat)" where
  "Create cfg s new_handle entry priority proc stack =
     (if priority > THREADPRIO_LOWEST cfg then Inr (s, Inl ERR_OUT_OF_RANGE)
      else if sint proc > THREADPROCESSORID_MAX cfg then Inr (s, Inl ERR_OUT_OF_RANGE_KERNEL)
      else if \<not> IsValidVirtualAddress cfg entry then Inr (s, Inl (RawResultCode (- 1)))
      else if sint proc < 0 \<or> 64 \<le> sint proc then Inl UndefinedShift
      else
        (case Scheduler s proc of
           None \<Rightarrow> Inl OutOfBounds
         | Some sched \<Rightarrow>
             let thread = length (threads s);
                 (available_page, available_slot, needs_allocation) =
                    GetFreeThreadLocalSlot (tls_slots s);
                 available_page = (if needs_allocation then length (tls_slots s)
                                   else available_page);
                 available_slot = (if needs_allocation then 0 else available_slot);
                 tls = (if needs_allocation then tls_slots s @ [0] else tls_slots s);
                 th = \<lparr>thread_id = next_thread_id s, status = Dormant, entry_point = entry,
                       stack_top = stack, nominal_priority = priority,
                       current_priority = priority, processor_id = proc, ideal_core = proc,
                       affinity_mask = push_bit (nat (sint proc)) 1, wait_objects = [],
                       wakeup_callback = None, lock_owner = None, wait_mutex_threads = [],
                       mutex_wait_address = 0, condvar_wait_address = 0, wait_handle = 0,
                       arb_wait_address = 0, callback_handle = new_handle,
                       tls_address = TLS_AREA_VADDR cfg + of_nat available_page * PAGE_SIZE cfg
                                       + of_nat available_slot * TLS_ENTRY_SIZE cfg,
                       scheduler = sched\<rparr>;
                 s = s\<lparr>threads := threads s @ [th],
                       next_thread_id := next_thread_id s + 1,
                       wakeup_callback_handle_table :=
                         wakeup_callback_handle_table s @ [(new_handle, thread)]\<rparr>;
                 s = emit (AddThread sched thread priority) s;
                 s = (if needs_allocation
                      then emit (MapMemoryBlock
                                   (TLS_AREA_VADDR cfg + of_nat available_page * PAGE_SIZE cfg)) s
                      else s)
             in Inr (s\<lparr>tls_slots := tls[available_page :=
                          set_bit available_slot (tls ! available_page)]\<rparr>, Inr thread)))"

section \<open>The timed wakeup\<close>

text \<open>Lines 124 to 126 of \<open>ThreadWakeupCallback\<close>: the thread leaves the waiter
  list of each of its wait objects, then its own list is cleared.\<close>

definition remove_from_wait_objects :: "Kernel \<Rightarrow> nat \<Rightarrow> Kernel" where
  "remove_from_wait_objects s t =
     upd_thread t (\<lambda>x. x\<lparr>wait_objects := []\<rparr>)
       (fold (\<lambda>obj. emit (RemoveWaitingThread obj t)) (wait_objects (threads s ! t)) s)"

text \<open>Lines 133 to 152: the mutex, condition variable and arbitration waits.\<close>

definition clear_address_waits :: "Kernel \<Rightarrow> nat \<Rightarrow> fault + Kernel" where
  "clear_address_waits s t =
     (case get_thread s t of
        None \<Rightarrow> Inl BadPointer
      | Some th \<Rightarrow>
          bindF
            (if mutex_wait_address th \<noteq> 0 \<or> condvar_wait_address th \<noteq> 0 \<or> wait_handle th \<noteq> 0
             then
               if status th \<noteq> WaitMutex then Inl AssertionFailed
               else
                 let s = upd_thread t (\<lambda>x. x\<lparr>mutex_wait_address := 0,
                            condvar_wait_address := 0, wait_handle := 0\<rparr>) s
                 in (case lock_owner th of
                       None \<Rightarrow> Inr s
                     | Some owner \<Rightarrow> RemoveMutexWaiter s owner t)
             else Inr s)
            (\<lambda>s. case get_thread s t of
                    None \<Rightarrow> Inl BadPointer
                  | Some th \<Rightarrow>
                      if arb_wait_address th \<noteq> 0 then
                        (if status th \<noteq> WaitArb then Inl AssertionFailed
                         else Inr (upd_thread t (\<lambda>x. x\<lparr>arb_wait_address := 0\<rparr>) s))
                      else Inr s))"

text \<open>
  A wakeup callback is a \<open>std::function\<close> stored in the thread. The thread holds the
  callback's name; \<open>run_callback\<close> gives, for each name, what the callback does to the
  kernel state and the boolean it returns. A handle that resolves to no thread is
  logged and the callback returns.
\<close>

definition ThreadWakeupCallback ::
  "Config \<Rightarrow> (nat \<Rightarrow> ThreadWakeupReason \<Rightarrow> nat \<Rightarrow> Kernel \<Rightarrow> bool \<times> Kernel) \<Rightarrow> Kernel \<Rightarrow> 64 word
     \<Rightarrow> fault + Kernel" where
  "ThreadWakeupCallback cfg run_callback s thread_handle =
     (case map_of (wakeup_callback_handle_table s) (ucast thread_handle) of
        None \<Rightarrow> Inr s
      | Some t \<Rightarrow>
          (case get_thread s t of
             None \<Rightarrow> Inl BadPointer
           | Some th \<Rightarrow>
               let (resume, s) =
                     (if status th = WaitSynchAny \<or> status th = WaitSynchAll
                         \<or> status th = WaitHLEEvent
                      then
                        let s = remove_from_wait_objects s t in
                        (case wakeup_callback th of
                           Some cb \<Rightarrow> run_callback cb Timeout t s
                         | None \<Rightarrow> (True, s))
                      else (True, s))
               in bindF (clear_address_waits s t)
                    (\<lambda>s. if resume then ResumeFromWait cfg s t else Inr s)))"

section \<open>Notions used in the statements, and example states\<close>

text \<open>\<open>priority_target\<close> is the value the loop of \<open>UpdatePriority\<close> computes for a
  thread; \<open>reprioritised\<close> relates two heaps that differ only in current priorities,
  each changed one being set to its target; \<open>pointers_valid\<close> says that every waiter
  and every lock owner stored in the heap is a thread of the heap.\<close>

definition priority_target :: "Thread list \<Rightarrow> nat \<Rightarrow> 32 word" where
  "priority_target ths t =
     highest_priority ths (nominal_priority (ths ! t)) (wait_mutex_threads (ths ! t))"

definition waiters_valid :: "Thread list \<Rightarrow> nat \<Rightarrow> bool" where
  "waiters_valid ths t = list_all (\<lambda>w. w < length ths) (wait_mutex_threads (ths ! t))"

definition reprioritised :: "Thread list \<Rightarrow> Thread list \<Rightarrow> bool" where
  "reprioritised ths ths' \<longleftrightarrow>
     length ths' = length ths \<and>
     (\<forall>i<length ths. \<exists>c.
        ths' ! i = (ths ! i)\<lparr>current_priority := c\<rparr> \<and>
        (c = current_priority (ths ! i) \<or> waiters_valid ths i \<and> c = priority_target ths i))"

definition pointers_valid :: "Thread list \<Rightarrow> bool" where
  "pointers_valid ths =
     list_all (\<lambda>t. waiters_valid ths t \<and>
                  (case lock_owner (ths ! t) of None \<Rightarrow> True | Some owner \<Rightarrow> owner < length ths))
       [0..<length ths]"

text \<open>The invariant of claim C8, over the whole heap.\<close>

definition priority_invariant :: "Thread list \<Rightarrow> bool" where
  "priority_invariant ths = list_all (\<lambda>th. current_priority th \<le> nominal_priority th) ths"

text \<open>Sample values for the constants of the absent headers; used only where an
  example needs concrete numbers.\<close>

definition sample_config :: Config where
  "sample_config =
     \<lparr>THREADPRIO_HIGHEST = 0, THREADPRIO_LOWEST = 63, THREADPROCESSORID_MAX = 3,
      TLS_AREA_VADDR = 0x1000000, PAGE_SIZE = 0x1000, TLS_ENTRY_SIZE = 0x200,
      IsValidVirtualAddress = (\<lambda>a. a \<noteq> 0), debug_asserts = False\<rparr>"

text \<open>The three-thread chain used in the examples: thread 2 waits on a mutex of
  thread 1, which waits on a mutex of thread 0.\<close>

definition waiting_thread :: "32 word \<Rightarrow> 32 word \<Rightarrow> nat option \<Rightarrow> nat list \<Rightarrow> Thread" where
  "waiting_thread nom cur own ws =
     \<lparr>thread_id = 0, status = WaitMutex, entry_point = 0, stack_top = 0,
      nominal_priority = nom, current_priority = cur, processor_id = 0, ideal_core = 0,
      affinity_mask = 1, wait_objects = [], wakeup_callback = None, lock_owner = own,
      wait_mutex_threads = ws, mutex_wait_address = 0, condvar_wait_address = 0,
      wait_handle = 0, arb_wait_address = 0, callback_handle = 0, tls_address = 0,
      scheduler = 0\<rparr>"

definition kernel_of :: "Thread list \<Rightarrow> Kernel" where
  "kernel_of ths =
     \<lparr>threads = ths, cores = [None, None, None, None], wakeup_callback_handle_table = [],
      next_thread_id = 1, tls_slots = [], events = []\<rparr>"

definition unlinked_kernel :: Kernel where
  "unlinked_kernel =
     kernel_of [waiting_thread 30 30 None [], waiting_thread 20 20 None [],
                waiting_thread 10 10 None []]"

definition chain_kernel :: Kernel where
  "chain_kernel =
     kernel_of [waiting_thread 30 20 None [1], waiting_thread 20 20 (Some 0) [2],
                waiting_thread 10 10 (Some 1) []]"

text \<open>The statuses from which \<open>ResumeFromWait\<close> goes on to place the thread: the
  wait states, which leave the \<open>switch\<close> by \<open>break\<close>, and \<open>Dormant\<close>, which has no
  case.\<close>

definition resumable :: "ThreadStatus \<Rightarrow> bool" where
  "resumable st = (st \<noteq> Ready \<and> st \<noteq> Running \<and> st \<noteq> Dead)"

text \<open>Example states: a sleeping thread with affinity mask \<open>0xF\<close> and ideal core 2
  while core 0 runs another thread; a single Ready thread; a single Dead thread.\<close>

definition placement_kernel :: Kernel where
  "placement_kernel =
     (kernel_of [(waiting_thread 20 20 None [])\<lparr>status := WaitSleep, affinity_mask := 0xF,
                    ideal_core := 2\<rparr>,
                 (waiting_thread 30 30 None [])\<lparr>status := Running\<rparr>])
       \<lparr>cores := [Some 1, None, None, None]\<rparr>"

definition ready_kernel :: Kernel where
  "ready_kernel = kernel_of [(waiting_thread 20 20 None [])\<lparr>status := Ready\<rparr>]"

definition dead_kernel :: Kernel where
  "dead_kernel = kernel_of [(waiting_thread 20 20 None [])\<lparr>status := Dead\<rparr>]"

text \<open>The page and the slot of a TLS address, as \<open>Stop\<close> computes them.\<close>

definition tls_page_of :: "Config \<Rightarrow> 64 word \<Rightarrow> nat" where
  "tls_page_of cfg a = unat ((a - TLS_AREA_VADDR cfg) div PAGE_SIZE cfg)"

definition tls_slot_of :: "Config \<Rightarrow> 64 word \<Rightarrow> nat" where
  "tls_slot_of cfg a = unat (((a - TLS_AREA_VADDR cfg) mod PAGE_SIZE cfg) div TLS_ENTRY_SIZE cfg)"

text \<open>A thread that is Ready and owns slot 0 of TLS page 0.\<close>

definition tls_kernel :: Kernel where
  "tls_kernel =
     (kernel_of [(waiting_thread 20 20 None [])\<lparr>status := Ready, callback_handle := 7,
                    tls_address := 0x1000000\<rparr>])
       \<lparr>wakeup_callback_handle_table := [(7, 0)], tls_slots := [1]\<rparr>"

text \<open>
  A run of the code: thread \<open>a\<close> is created and stopped, thread \<open>b\<close> is created, and
  \<open>a\<close> is stopped a second time. The result lists \<open>a\<close>, \<open>b\<close>, their TLS addresses,
  the status of \<open>b\<close> at the end, and the TLS bitmap before and after the second
  \<open>Stop\<close>.
\<close>

definition double_stop_run ::
  "(nat \<times> nat \<times> 64 word \<times> 64 word \<times> ThreadStatus \<times> 8 word list \<times> 8 word list) option" where
  "double_stop_run =
     (case Create sample_config (kernel_of []) 1 0x8000 44 0 0x9000 of
        Inr (s1, Inr a) \<Rightarrow>
          (case Stop sample_config s1 a of
             Inr s2 \<Rightarrow>
               (case Create sample_config s2 2 0x8000 44 0 0x9000 of
                  Inr (s3, Inr b) \<Rightarrow>
                    (case Stop sample_config s3 a of
                       Inr s4 \<Rightarrow>
                         Some (a, b, tls_address (threads s3 ! a), tls_address (threads s3 ! b),
                               status (threads s4 ! b), tls_slots s3, tls_slots s4)
                     | Inl e \<Rightarrow> None)
                | _ \<Rightarrow> None)
           | Inl e \<Rightarrow> None)
      | _ \<Rightarrow> None)"

text \<open>A thread waiting on the objects 5 and 6 with a timeout pending under handle 7, and
  callbacks that leave the state alone: callback 1 lets the thread resume, any other
  vetoes.\<close>

definition synch_kernel :: "nat option \<Rightarrow> Kernel" where
  "synch_kernel cb =
     (kernel_of [(waiting_thread 20 20 None [])\<lparr>status := WaitSynchAny, wait_objects := [5, 6],
                    wakeup_callback := cb, callback_handle := 7\<rparr>])
       \<lparr>wakeup_callback_handle_table := [(7, 0)]\<rparr>"

definition veto_unless_one :: "nat \<Rightarrow> ThreadWakeupReason \<Rightarrow> nat \<Rightarrow> Kernel \<Rightarrow> bool \<times> Kernel" where
  "veto_unless_one cb reason t s = (cb = 1 \<and> reason = Timeout, s)"

section \<open>Facts about the operations\<close>

lemma highest_priority_fold:
  "highest_priority ths p ws = fold min (map (\<lambda>w. nominal_priority (ths ! w)) ws) p"
  by (induction ws arbitrary: p) (auto simp: min_def)

lemma highest_priority_Min:
  "highest_priority ths p ws = Min (set (p # map (\<lambda>w. nominal_priority (ths ! w)) ws))"
  by (simp only: highest_priority_fold Min.set_eq_fold)

lemma highest_priority_le: "highest_priority ths p ws \<le> p"
  by (simp add: highest_priority_Min)

lemma reprioritised_refl: "reprioritised ths ths"
  unfolding reprioritised_def
  by (intro conjI allI impI refl) (rule_tac x = "current_priority (ths ! i)" in exI, simp)

lemma reprioritisedD:
  assumes "reprioritised ths ths'" "i < length ths"
  obtains c where "ths' ! i = (ths ! i)\<lparr>current_priority := c\<rparr>"
    and "c = current_priority (ths ! i) \<or> waiters_valid ths i \<and> c = priority_target ths i"
  using assms unfolding reprioritised_def by blast

lemma reprioritised_length: "reprioritised ths ths' \<Longrightarrow> length ths' = length ths"
  unfolding reprioritised_def by blast

lemma reprioritised_fields:
  assumes "reprioritised ths ths'" "i < length ths"
  shows "nominal_priority (ths' ! i) = nominal_priority (ths ! i)"
    and "wait_mutex_threads (ths' ! i) = wait_mutex_threads (ths ! i)"
    and "lock_owner (ths' ! i) = lock_owner (ths ! i)"
    and "scheduler (ths' ! i) = scheduler (ths ! i)"
    and "status (ths' ! i) = status (ths ! i)"
proof -
  from assms obtain c where e: "ths' ! i = (ths ! i)\<lparr>current_priority := c\<rparr>"
    by (rule reprioritisedD)
  show "nominal_priority (ths' ! i) = nominal_priority (ths ! i)" by (simp add: e)
  show "wait_mutex_threads (ths' ! i) = wait_mutex_threads (ths ! i)" by (simp add: e)
  show "lock_owner (ths' ! i) = lock_owner (ths ! i)" by (simp add: e)
  show "scheduler (ths' ! i) = scheduler (ths ! i)" by (simp add: e)
  show "status (ths' ! i) = status (ths ! i)" by (simp add: e)
qed

lemma reprioritised_target:
  assumes r: "reprioritised ths ths'" and i: "i < length ths" and v: "waiters_valid ths i"
  shows "priority_target ths' i = priority_target ths i" and "waiters_valid ths' i"
proof -
  have len: "length ths' = length ths" using r by (rule reprioritised_length)
  have ws: "wait_mutex_threads (ths' ! i) = wait_mutex_threads (ths ! i)"
    using reprioritised_fields(2)[OF r i] .
  have "\<forall>w\<in>set (wait_mutex_threads (ths ! i)). nominal_priority (ths' ! w) = nominal_priority (ths ! w)"
    using v reprioritised_fields(1)[OF r] by (auto simp: waiters_valid_def list_all_iff)
  then show "priority_target ths' i = priority_target ths i"
    unfolding priority_target_def ws reprioritised_fields(1)[OF r i]
    by (rule highest_priority_cong)
  show "waiters_valid ths' i" using v by (simp add: waiters_valid_def ws len)
qed

lemma reprioritised_trans:
  assumes a: "reprioritised ths ths1" and b: "reprioritised ths1 ths'"
  shows "reprioritised ths ths'"
proof -
  have len1: "length ths1 = length ths" using a by (rule reprioritised_length)
  have len2: "length ths' = length ths" using b len1 by (simp add: reprioritised_length)
  have "\<exists>c. ths' ! i = (ths ! i)\<lparr>current_priority := c\<rparr> \<and>
        (c = current_priority (ths ! i) \<or> waiters_valid ths i \<and> c = priority_target ths i)"
    if i: "i < length ths" for i
  proof -
    have i1: "i < length ths1" using i len1 by simp
    from a i obtain c1 where e1: "ths1 ! i = (ths ! i)\<lparr>current_priority := c1\<rparr>"
      and c1: "c1 = current_priority (ths ! i) \<or> waiters_valid ths i \<and> c1 = priority_target ths i"
      by (rule reprioritisedD)
    from b i1 obtain c2 where e2: "ths' ! i = (ths1 ! i)\<lparr>current_priority := c2\<rparr>"
      and c2: "c2 = current_priority (ths1 ! i) \<or> waiters_valid ths1 i \<and> c2 = priority_target ths1 i"
      by (rule reprioritisedD)
    have ws: "wait_mutex_threads (ths1 ! i) = wait_mutex_threads (ths ! i)"
      by (simp add: e1)
    have v: "waiters_valid ths1 i \<Longrightarrow> waiters_valid ths i"
      by (simp add: waiters_valid_def ws len1)
    have e: "ths' ! i = (ths ! i)\<lparr>current_priority := c2\<rparr>"
      by (simp add: e2 e1)
    have cur1: "current_priority (ths1 ! i) = c1" by (simp add: e1)
    have "c2 = current_priority (ths ! i) \<or> waiters_valid ths i \<and> c2 = priority_target ths i"
    proof (cases "waiters_valid ths1 i \<and> c2 = priority_target ths1 i")
      case True
      then show ?thesis using v reprioritised_target(1)[OF a i] by simp
    next
      case False
      then have "c2 = c1" using c2 cur1 by blast
      then show ?thesis using c1 by simp
    qed
    then show ?thesis using e by blast
  qed
  then show ?thesis using len2 unfolding reprioritised_def by blast
qed

lemma reprioritised_step:
  assumes t: "t < length ths" and v: "waiters_valid ths t"
  shows "reprioritised ths (ths[t := (ths ! t)\<lparr>current_priority := priority_target ths t\<rparr>])"
proof -
  have "\<exists>c. ths[t := (ths ! t)\<lparr>current_priority := priority_target ths t\<rparr>] ! i
          = (ths ! i)\<lparr>current_priority := c\<rparr> \<and>
        (c = current_priority (ths ! i) \<or> waiters_valid ths i \<and> c = priority_target ths i)"
    if i: "i < length ths" for i
  proof (cases "i = t")
    case True
    then show ?thesis using t v by (intro exI[of _ "priority_target ths t"]) simp
  next
    case False
    then show ?thesis by (intro exI[of _ "current_priority (ths ! i)"]) simp
  qed
  then show ?thesis unfolding reprioritised_def by simp
qed

lemma UpdatePriority_frame:
  "UpdatePriority s t = Inr s' \<Longrightarrow>
     reprioritised (threads s) (threads s') \<and> cores s' = cores s \<and> tls_slots s' = tls_slots s \<and>
     wakeup_callback_handle_table s' = wakeup_callback_handle_table s \<and>
     next_thread_id s' = next_thread_id s"
proof (induction s t arbitrary: s' rule: UpdatePriority.induct)
  case (1 s t)
  let ?np = "highest_priority (threads s) (nominal_priority (threads s ! t))
               (wait_mutex_threads (threads s ! t))"
  let ?s1 = "upd_thread t (\<lambda>x. x\<lparr>current_priority := ?np\<rparr>)
               (emit (SetThreadPriority (scheduler (threads s ! t)) t ?np) s)"
  from "1.prems" have t: "t < length (threads s)"
    by (subst (asm) UpdatePriority.simps) (auto split: if_splits)
  from "1.prems" t have v: "waiters_valid (threads s) t"
    by (subst (asm) UpdatePriority.simps) (auto simp: Let_def waiters_valid_def split: if_splits)
  show ?case
  proof (cases "?np = current_priority (threads s ! t)")
    case True
    with "1.prems" t v have "s' = s"
      by (subst (asm) UpdatePriority.simps)
         (auto simp: Let_def waiters_valid_def priority_target_def split: if_splits)
    then show ?thesis by (simp add: reprioritised_refl)
  next
    case False
    have thr1: "threads ?s1 = (threads s)[t := (threads s ! t)\<lparr>current_priority := ?np\<rparr>]"
      by (simp add: upd_thread_def emit_def)
    have r1: "reprioritised (threads s) (threads ?s1)"
      unfolding thr1 using reprioritised_step[OF t v] by (simp add: priority_target_def)
    have rest1: "cores ?s1 = cores s \<and> tls_slots ?s1 = tls_slots s \<and>
       wakeup_callback_handle_table ?s1 = wakeup_callback_handle_table s \<and>
       next_thread_id ?s1 = next_thread_id s"
      by (simp add: upd_thread_def emit_def)
    show ?thesis
    proof (cases "lock_owner (threads s ! t)")
      case None
      with "1.prems" t v False have "s' = ?s1"
        by (subst (asm) UpdatePriority.simps)
           (auto simp: Let_def waiters_valid_def priority_target_def split: if_splits)
      then show ?thesis using r1 rest1 by simp
    next
      case (Some owner)
      with "1.prems" t v False have rec: "UpdatePriority ?s1 owner = Inr s'"
        by (subst (asm) UpdatePriority.simps)
           (auto simp: Let_def waiters_valid_def priority_target_def split: if_splits)
      have "reprioritised (threads ?s1) (threads s') \<and> cores s' = cores ?s1 \<and>
            tls_slots s' = tls_slots ?s1 \<and>
            wakeup_callback_handle_table s' = wakeup_callback_handle_table ?s1 \<and>
            next_thread_id s' = next_thread_id ?s1"
        using t v False Some rec
        by (intro "1.IH"[OF _ refl _ refl _ refl]) (simp_all add: waiters_valid_def)
      then show ?thesis using reprioritised_trans[OF r1] rest1 by simp
    qed
  qed
qed

lemma pointers_validD:
  assumes "pointers_valid ths" "t < length ths"
  shows "waiters_valid ths t" and "lock_owner (ths ! t) = Some owner \<Longrightarrow> owner < length ths"
  using assms by (auto simp: pointers_valid_def list_all_iff split: option.splits)

lemma reprioritised_pointers_valid:
  assumes r: "reprioritised ths ths'" and p: "pointers_valid ths"
  shows "pointers_valid ths'"
proof -
  have len: "length ths' = length ths" using r by (rule reprioritised_length)
  have "waiters_valid ths' t \<and>
        (case lock_owner (ths' ! t) of None \<Rightarrow> True | Some owner \<Rightarrow> owner < length ths')"
    if t: "t < length ths" for t
    using reprioritised_target(2)[OF r t pointers_validD(1)[OF p t]]
      pointers_validD(2)[OF p t] reprioritised_fields(3)[OF r t] len
    by (auto split: option.splits)
  then show ?thesis by (simp add: pointers_valid_def list_all_iff len)
qed

lemma UpdatePriority_unfold:
  assumes t: "t < length (threads s)" and v: "waiters_valid (threads s) t"
  shows "UpdatePriority s t =
     (if priority_target (threads s) t = current_priority (threads s ! t) then Inr s
      else case lock_owner (threads s ! t) of
             None \<Rightarrow>
               Inr (upd_thread t (\<lambda>x. x\<lparr>current_priority := priority_target (threads s) t\<rparr>)
                      (emit (SetThreadPriority (scheduler (threads s ! t)) t
                               (priority_target (threads s) t)) s))
           | Some owner \<Rightarrow>
               UpdatePriority
                 (upd_thread t (\<lambda>x. x\<lparr>current_priority := priority_target (threads s) t\<rparr>)
                      (emit (SetThreadPriority (scheduler (threads s ! t)) t
                               (priority_target (threads s) t)) s))
                 owner)"
  unfolding priority_target_def using t v
  by (subst UpdatePriority.simps) (simp add: Let_def waiters_valid_def)

lemma threads_step:
  "threads (upd_thread t (\<lambda>x. x\<lparr>current_priority := c\<rparr>) (emit e s))
     = (threads s)[t := (threads s ! t)\<lparr>current_priority := c\<rparr>]"
  by (simp add: upd_thread_def emit_def)

lemma UpdatePriority_total:
  "pointers_valid (threads s) \<Longrightarrow> t < length (threads s) \<Longrightarrow> \<exists>s'. UpdatePriority s t = Inr s'"
proof (induction s t rule: UpdatePriority.induct)
  case (1 s t)
  let ?np = "highest_priority (threads s) (nominal_priority (threads s ! t))
               (wait_mutex_threads (threads s ! t))"
  let ?s1 = "upd_thread t (\<lambda>x. x\<lparr>current_priority := ?np\<rparr>)
               (emit (SetThreadPriority (scheduler (threads s ! t)) t ?np) s)"
  have t: "t < length (threads s)" by fact
  have v: "waiters_valid (threads s) t" using pointers_validD(1)[OF "1.prems"] .
  have np: "priority_target (threads s) t = ?np" by (simp add: priority_target_def)
  show ?case
  proof (cases "?np = current_priority (threads s ! t)")
    case True
    then show ?thesis by (simp add: UpdatePriority_unfold[OF t v] np)
  next
    case False
    show ?thesis
    proof (cases "lock_owner (threads s ! t)")
      case None
      then show ?thesis using False by (simp add: UpdatePriority_unfold[OF t v] np)
    next
      case (Some owner)
      have o: "owner < length (threads s)" using pointers_validD(2)[OF "1.prems" Some] .
      have r1: "reprioritised (threads s) (threads ?s1)"
        unfolding threads_step using reprioritised_step[OF t v] by (simp add: np)
      have pv1: "pointers_valid (threads ?s1)"
        using reprioritised_pointers_valid[OF r1 "1.prems"(1)] .
      have o1: "owner < length (threads ?s1)" using o by (simp add: threads_step)
      have "\<exists>s'. UpdatePriority ?s1 owner = Inr s'"
        using t v False Some pv1 o1
        by (intro "1.IH"[OF _ refl _ refl _ refl]) (simp_all add: waiters_valid_def)
      then show ?thesis using False Some by (simp add: UpdatePriority_unfold[OF t v] np)
    qed
  qed
qed

lemma UpdatePriority_sets_target:
  assumes r: "UpdatePriority s t = Inr s'" and t: "t < length (threads s)"
    and v: "waiters_valid (threads s) t"
  shows "current_priority (threads s' ! t) = priority_target (threads s) t"
proof -
  let ?np = "priority_target (threads s) t"
  let ?s1 = "upd_thread t (\<lambda>x. x\<lparr>current_priority := ?np\<rparr>)
               (emit (SetThreadPriority (scheduler (threads s ! t)) t ?np) s)"
  have r1: "reprioritised (threads s) (threads ?s1)"
    unfolding threads_step using reprioritised_step[OF t v] .
  have cur1: "current_priority (threads ?s1 ! t) = ?np" using t by (simp add: threads_step)
  have t1: "t < length (threads ?s1)" using t by (simp add: threads_step)
  have tg1: "priority_target (threads ?s1) t = ?np" using reprioritised_target(1)[OF r1 t v] .
  have after: "current_priority (threads s'' ! t) = ?np"
    if "reprioritised (threads ?s1) (threads s'')" for s''
  proof -
    from that t1 obtain c where e: "threads s'' ! t = (threads ?s1 ! t)\<lparr>current_priority := c\<rparr>"
      and c: "c = current_priority (threads ?s1 ! t) \<or>
              waiters_valid (threads ?s1) t \<and> c = priority_target (threads ?s1) t"
      by (rule reprioritisedD)
    have "c = ?np" using c cur1 tg1 by auto
    then show ?thesis by (simp add: e)
  qed
  show ?thesis
  proof (cases "?np = current_priority (threads s ! t)")
    case True
    then have "s' = s" using r by (simp add: UpdatePriority_unfold[OF t v])
    then show ?thesis using True by simp
  next
    case False
    show ?thesis
    proof (cases "lock_owner (threads s ! t)")
      case None
      then have "s' = ?s1" using r False by (simp add: UpdatePriority_unfold[OF t v])
      then show ?thesis using cur1 by simp
    next
      case (Some owner)
      then have "UpdatePriority ?s1 owner = Inr s'"
        using r False by (simp add: UpdatePriority_unfold[OF t v])
      then have "reprioritised (threads ?s1) (threads s')"
        using UpdatePriority_frame by blast
      then show ?thesis by (rule after)
    qed
  qed
qed

lemma UpdatePriority_Inr_valid:
  assumes "UpdatePriority s t = Inr s'"
  shows "t < length (threads s)" and "waiters_valid (threads s) t"
proof -
  show t: "t < length (threads s)"
    using assms by (subst (asm) UpdatePriority.simps) (auto split: if_splits)
  show "waiters_valid (threads s) t"
    using assms t
    by (subst (asm) UpdatePriority.simps) (auto simp: Let_def waiters_valid_def split: if_splits)
qed

lemma priority_target_le: "priority_target ths t \<le> nominal_priority (ths ! t)"
  by (simp add: priority_target_def highest_priority_le)

lemma UpdatePriority_invariant_but:
  assumes r: "UpdatePriority s t = Inr s'"
    and inv: "\<forall>i<length (threads s). i \<noteq> t \<longrightarrow>
                current_priority (threads s ! i) \<le> nominal_priority (threads s ! i)"
  shows "priority_invariant (threads s')"
proof -
  have t: "t < length (threads s)" and v: "waiters_valid (threads s) t"
    using UpdatePriority_Inr_valid[OF r] by simp_all
  have rp: "reprioritised (threads s) (threads s')" using UpdatePriority_frame[OF r] by simp
  have len: "length (threads s') = length (threads s)" using rp by (rule reprioritised_length)
  have "current_priority (threads s' ! i) \<le> nominal_priority (threads s' ! i)"
    if i: "i < length (threads s)" for i
  proof (cases "i = t")
    case True
    have "current_priority (threads s' ! t) = priority_target (threads s) t"
      using UpdatePriority_sets_target[OF r t v] .
    then show ?thesis
      using priority_target_le[of "threads s" t] reprioritised_fields(1)[OF rp t] True by simp
  next
    case False
    from rp i obtain c where e: "threads s' ! i = (threads s ! i)\<lparr>current_priority := c\<rparr>"
      and c: "c = current_priority (threads s ! i) \<or>
              waiters_valid (threads s) i \<and> c = priority_target (threads s) i"
      by (rule reprioritisedD)
    have "c \<le> nominal_priority (threads s ! i)"
      using c inv i False priority_target_le[of "threads s" i] by auto
    then show ?thesis by (simp add: e)
  qed
  then show ?thesis by (simp add: priority_invariant_def list_all_length len)
qed

lemma upd_thread_keeps_priorities:
  assumes "\<And>x. current_priority (f x) = current_priority x"
    and "\<And>x. nominal_priority (f x) = nominal_priority x"
  shows "current_priority (threads (upd_thread t f s) ! i) = current_priority (threads s ! i)"
    and "nominal_priority (threads (upd_thread t f s) ! i) = nominal_priority (threads s ! i)"
    and "length (threads (upd_thread t f s)) = length (threads s)"
proof -
  show "current_priority (threads (upd_thread t f s) ! i) = current_priority (threads s ! i)"
    by (cases "t < length (threads s)"; cases "i = t") (simp_all add: upd_thread_def assms list_update_beyond)
  show "nominal_priority (threads (upd_thread t f s) ! i) = nominal_priority (threads s ! i)"
    by (cases "t < length (threads s)"; cases "i = t") (simp_all add: upd_thread_def assms list_update_beyond)
  show "length (threads (upd_thread t f s)) = length (threads s)"
    by (simp add: upd_thread_def)
qed

lemma priority_invariantD:
  "priority_invariant ths \<Longrightarrow> i < length ths \<Longrightarrow> current_priority (ths ! i) \<le> nominal_priority (ths ! i)"
  by (simp add: priority_invariant_def list_all_length)

lemma Scheduler_upd_thread [simp]: "Scheduler (upd_thread t f s) c = Scheduler s c"
  by (simp add: Scheduler_def upd_thread_def)

lemma CpuCore_upd_thread [simp]: "CpuCore (upd_thread t f s) c = CpuCore s c"
  by (simp add: CpuCore_def upd_thread_def)

lemma CpuCore_emit [simp]: "CpuCore (emit e s) c = CpuCore s c"
  by (simp add: CpuCore_def emit_def)

lemma GetNextProcessorId_upd_thread [simp]:
  "GetNextProcessorId (upd_thread t f s) m = GetNextProcessorId s m"
  by (simp add: GetNextProcessorId_def upd_thread_def)

lemma cores_upd_thread [simp]: "cores (upd_thread t f s) = cores s"
  by (simp add: upd_thread_def)

lemma emit_upd_thread: "emit e (upd_thread t f s) = upd_thread t f (emit e s)"
  by (simp add: emit_def upd_thread_def)

lemma upd_thread_const_twice:
  "upd_thread t (\<lambda>_. a) (upd_thread t f s) = upd_thread t (\<lambda>_. a) s"
  by (simp add: upd_thread_def)

lemma get_thread_upd_thread_same:
  "t < length (threads s) \<Longrightarrow> get_thread (upd_thread t f s) t = Some (f (threads s ! t))"
  by (simp add: get_thread_def upd_thread_def)

lemma if_upd_thread:
  "(if c then upd_thread t f x else upd_thread t f y) = upd_thread t f (if c then x else y)"
  by simp

lemma threads_upd_thread:
  "threads (upd_thread t f s) = (threads s)[t := f (threads s ! t)]"
  by (simp add: upd_thread_def)

lemma length_threads_upd_thread [simp]:
  "length (threads (upd_thread t f s)) = length (threads s)"
  by (simp add: upd_thread_def)

lemma sint_nonneg_not_minus1: "0 \<le> sint (c :: 32 word) \<Longrightarrow> c \<noteq> - 1"
  by auto

lemma fold_emit_events:
  "events (fold (\<lambda>obj. emit (f obj)) objs s) = events s @ map f objs"
  by (induction objs arbitrary: s) (simp_all add: emit_def)

lemma fold_emit_other:
  "threads (fold (\<lambda>obj. emit (f obj)) objs s) = threads s"
  "cores (fold (\<lambda>obj. emit (f obj)) objs s) = cores s"
  "tls_slots (fold (\<lambda>obj. emit (f obj)) objs s) = tls_slots s"
  "wakeup_callback_handle_table (fold (\<lambda>obj. emit (f obj)) objs s)
     = wakeup_callback_handle_table s"
  "next_thread_id (fold (\<lambda>obj. emit (f obj)) objs s) = next_thread_id s"
  by (induction objs arbitrary: s) (simp_all add: emit_def)

lemma Stop_again:
  assumes t: "t < length (threads s)" and dead: "status (threads s ! t) = Dead"
    and wo: "wait_objects (threads s ! t) = []"
    and nz: "PAGE_SIZE cfg \<noteq> 0" "TLS_ENTRY_SIZE cfg \<noteq> 0"
    and pg: "tls_page_of cfg (tls_address (threads s ! t)) < length (tls_slots s)"
    and sl: "tls_slot_of cfg (tls_address (threads s ! t)) < 8"
  shows "\<exists>s'. Stop cfg s t = Inr s' \<and>
           events s' = events s @ [UnscheduleEvent (callback_handle (threads s ! t)),
                                   WakeupAllWaitingThreads t] \<and>
           status (threads s' ! t) = Dead \<and>
           tls_slots s' = (tls_slots s)[tls_page_of cfg (tls_address (threads s ! t)) :=
              unset_bit (tls_slot_of cfg (tls_address (threads s ! t)))
                (tls_slots s ! tls_page_of cfg (tls_address (threads s ! t)))] \<and>
           \<not> bit (tls_slots s' ! tls_page_of cfg (tls_address (threads s ! t)))
                 (tls_slot_of cfg (tls_address (threads s ! t)))"
  using assms
  by (simp add: Stop_def get_thread_def Let_def emit_def upd_thread_def tls_page_of_def
        tls_slot_of_def bit_unset_bit_iff)

lemma Stop_first:
  assumes "Stop cfg s0 t = Inr s1"
  shows "t < length (threads s0)"
    and "threads s1 ! t = (threads s0 ! t)\<lparr>callback_handle := 0, status := Dead, wait_objects := []\<rparr>"
    and "length (tls_slots s1) = length (tls_slots s0)"
    and "PAGE_SIZE cfg \<noteq> 0" and "TLS_ENTRY_SIZE cfg \<noteq> 0"
    and "tls_page_of cfg (tls_address (threads s0 ! t)) < length (tls_slots s0)"
    and "tls_slot_of cfg (tls_address (threads s0 ! t)) < 8"
proof -
  show t: "t < length (threads s0)"
    using assms by (auto simp: Stop_def get_thread_def split: if_splits)
  have g: "get_thread s0 t = Some (threads s0 ! t)" using t by (simp add: get_thread_def)
  show "PAGE_SIZE cfg \<noteq> 0" and "TLS_ENTRY_SIZE cfg \<noteq> 0"
    using assms unfolding Stop_def g option.case Let_def by (auto split: if_splits)
  then have nz: "\<not> (PAGE_SIZE cfg = 0 \<or> TLS_ENTRY_SIZE cfg = 0)" by simp
  show pg: "tls_page_of cfg (tls_address (threads s0 ! t)) < length (tls_slots s0)"
    using assms unfolding Stop_def g option.case Let_def if_not_P[OF nz]
    by (auto simp: tls_page_of_def emit_def upd_thread_def fold_emit_other split: if_splits)
  show sl: "tls_slot_of cfg (tls_address (threads s0 ! t)) < 8"
    using assms unfolding Stop_def g option.case Let_def if_not_P[OF nz]
    by (auto simp: tls_slot_of_def emit_def upd_thread_def fold_emit_other split: if_splits)
  show "threads s1 ! t = (threads s0 ! t)\<lparr>callback_handle := 0, status := Dead, wait_objects := []\<rparr>"
    using assms t unfolding Stop_def g option.case Let_def if_not_P[OF nz]
    by (auto simp: emit_def upd_thread_def fold_emit_other split: if_splits)
  show "length (tls_slots s1) = length (tls_slots s0)"
    using assms t unfolding Stop_def g option.case Let_def if_not_P[OF nz]
    by (auto simp: emit_def upd_thread_def fold_emit_other split: if_splits)
qed

lemma unset_bit_0_1: "unset_bit 0 (1 :: 8 word) = 0"
  by code_simp

lemma remove_from_wait_objects_threads:
  "threads (remove_from_wait_objects s t) = (threads s)[t := (threads s ! t)\<lparr>wait_objects := []\<rparr>]"
  by (simp add: remove_from_wait_objects_def upd_thread_def fold_emit_other)

lemma remove_from_wait_objects_events:
  "events (remove_from_wait_objects s t) =
     events s @ map (\<lambda>obj. RemoveWaitingThread obj t) (wait_objects (threads s ! t))"
  by (simp add: remove_from_wait_objects_def upd_thread_def fold_emit_events)

lemma Create_threads:
  assumes "Create cfg s new_handle entry priority proc stack = Inr (s', Inr t)"
  shows "t = length (threads s) \<and>
         (\<exists>th. threads s' = threads s @ [th] \<and> nominal_priority th = priority \<and>
               current_priority th = priority \<and> status th = Dormant)"
  using assms unfolding Create_def Let_def
  by (auto simp: emit_def split: if_splits option.splits prod.splits)

lemma Create_invariant:
  assumes c: "Create cfg s new_handle entry priority proc stack = Inr (s', Inr t)"
    and inv: "priority_invariant (threads s)"
  shows "priority_invariant (threads s')"
proof -
  from Create_threads[OF c] obtain th where "threads s' = threads s @ [th]"
    and "nominal_priority th = priority" and "current_priority th = priority" by blast
  then show ?thesis using inv by (simp add: priority_invariant_def)
qed

section \<open>The claims\<close>

text \<open>
  C1. Priority inheritance is meant to be transitive along a chain of lock owners.
  The code recomputes an owner's priority from the nominal priorities of its waiters,
  so a boost of a waiter's current priority never reaches the owner's owner. The run
  below starts from three unlinked threads with nominal priorities 30, 20 and 10;
  thread 1 waits on thread 0, then thread 2 waits on thread 1. Thread 1 is boosted to
  10, thread 0 stays at 20.
\<close>

theorem inheritance_not_transitive:
  "(case bindF (AddMutexWaiter unlinked_kernel 0 1) (\<lambda>s. AddMutexWaiter s 1 2) of
      Inl e \<Rightarrow> None
    | Inr s \<Rightarrow> Some (map nominal_priority (threads s), map lock_owner (threads s),
                     map current_priority (threads s)))
   = Some ([30, 20, 10], [None, Some 0, Some 1], [20, 10, 10])"
  by (simp add: unlinked_kernel_def kernel_of_def waiting_thread_def AddMutexWaiter_def
        bindF_def upd_thread_def emit_def UpdatePriority.simps Let_def)

theorem inheritance_not_transitive_witness:
  "\<exists>s. bindF (AddMutexWaiter unlinked_kernel 0 1) (\<lambda>s. AddMutexWaiter s 1 2) = Inr s \<and>
       lock_owner (threads s ! 2) = Some 1 \<and> lock_owner (threads s ! 1) = Some 0 \<and>
       nominal_priority (threads s ! 2) = 10 \<and> current_priority (threads s ! 0) = 20"
proof -
  obtain s where s: "bindF (AddMutexWaiter unlinked_kernel 0 1) (\<lambda>s. AddMutexWaiter s 1 2) = Inr s"
    and n: "map nominal_priority (threads s) = [30, 20, 10]"
    and l: "map lock_owner (threads s) = [None, Some 0, Some 1]"
    and c: "map current_priority (threads s) = [20, 10, 10]"
    using inheritance_not_transitive by (auto split: sum.splits)
  have len: "length (threads s) = 3" using n by (metis length_map length_Cons list.size(3) numeral_3_eq_3)
  have "nominal_priority (threads s ! 2) = [30, 20, 10] ! 2"
    using n len by (metis nth_map lessI numeral_2_eq_2 numeral_3_eq_3)
  moreover have "current_priority (threads s ! 0) = [20, 10, 10] ! 0"
    using c len by (metis nth_map zero_less_numeral)
  moreover have "lock_owner (threads s ! 2) = [None, Some 0, Some 1] ! 2"
    using l len by (metis nth_map lessI numeral_2_eq_2 numeral_3_eq_3)
  moreover have "lock_owner (threads s ! 1) = [None, Some 0, Some 1] ! 1"
    using l len by (metis nth_map one_less_numeral_iff semiring_norm(77))
  ultimately show ?thesis using s by simp
qed

text \<open>
  C2. \<open>UpdatePriority\<close> computes the minimum \<open>m\<close> of the thread's nominal priority and
  the nominal priorities of the threads in its \<open>wait_mutex_threads\<close>. If \<open>m\<close> is the
  current priority nothing changes; otherwise the scheduler is told the new priority,
  the current priority becomes \<open>m\<close>, and \<open>UpdatePriority\<close> runs on the lock owner
  when there is one. On a heap whose pointers are valid the call returns, and the
  thread's current priority is \<open>m\<close> afterwards.
\<close>

theorem UpdatePriority_min_of_nominals:
  assumes p: "pointers_valid (threads s)" and t: "t < length (threads s)"
  shows "let th = threads s ! t;
             m = Min (set (nominal_priority th #
                           map (\<lambda>w. nominal_priority (threads s ! w)) (wait_mutex_threads th)));
             s1 = upd_thread t (\<lambda>x. x\<lparr>current_priority := m\<rparr>)
                    (emit (SetThreadPriority (scheduler th) t m) s)
         in UpdatePriority s t =
              (if m = current_priority th then Inr s
               else case lock_owner th of
                      None \<Rightarrow> Inr s1
                    | Some owner \<Rightarrow> UpdatePriority s1 owner) \<and>
            (\<exists>s'. UpdatePriority s t = Inr s' \<and> current_priority (threads s' ! t) = m)"
proof -
  have v: "waiters_valid (threads s) t" using pointers_validD(1)[OF p t] .
  have m: "Min (set (nominal_priority (threads s ! t) #
                     map (\<lambda>w. nominal_priority (threads s ! w)) (wait_mutex_threads (threads s ! t))))
           = priority_target (threads s) t"
    by (simp only: priority_target_def highest_priority_Min)
  obtain s' where s': "UpdatePriority s t = Inr s'" using UpdatePriority_total[OF p t] by blast
  have "current_priority (threads s' ! t) = priority_target (threads s) t"
    using UpdatePriority_sets_target[OF s' t v] .
  then show ?thesis
    unfolding Let_def m using s' UpdatePriority_unfold[OF t v] by simp
qed

theorem UpdatePriority_min_of_nominals_witness:
  "pointers_valid (threads chain_kernel) \<and> 1 < length (threads chain_kernel) \<and>
   (\<exists>s'. UpdatePriority chain_kernel 1 = Inr s' \<and> current_priority (threads s' ! 1) = 10)"
proof -
  have p: "pointers_valid (threads chain_kernel)"
    by (simp add: pointers_valid_def waiters_valid_def chain_kernel_def kernel_of_def
          waiting_thread_def upt_conv_Cons)
  have t: "1 < length (threads chain_kernel)"
    by (simp add: chain_kernel_def kernel_of_def)
  have m: "Min (set (nominal_priority (threads chain_kernel ! 1) #
             map (\<lambda>w. nominal_priority (threads chain_kernel ! w))
               (wait_mutex_threads (threads chain_kernel ! 1)))) = 10"
    by (simp add: chain_kernel_def kernel_of_def waiting_thread_def)
  show ?thesis
    using UpdatePriority_min_of_nominals[OF p t] p t unfolding Let_def m by blast
qed

text \<open>
  C8. \<open>current_priority \<le> nominal_priority\<close> for every thread of the heap is preserved
  by \<open>SetPriority\<close>, \<open>AddMutexWaiter\<close>, \<open>RemoveMutexWaiter\<close> and \<open>UpdatePriority\<close>,
  and by \<open>Create\<close>, which starts a thread with both priorities equal.
  \<open>BoostPriority\<close> stores the priority it is given and leaves the nominal priority
  alone, whatever the two are.
\<close>

theorem priority_invariant_preserved:
  "(priority_invariant (threads s) \<and>
      Create cfg s new_handle entry priority proc stack = Inr (s', Inr t)
      \<longrightarrow> priority_invariant (threads s')) \<and>
   (priority_invariant (threads s) \<and> SetPriority cfg s t priority = Inr s'
      \<longrightarrow> priority_invariant (threads s')) \<and>
   (priority_invariant (threads s) \<and> AddMutexWaiter s owner thread = Inr s'
      \<longrightarrow> priority_invariant (threads s')) \<and>
   (priority_invariant (threads s) \<and> RemoveMutexWaiter s owner thread = Inr s'
      \<longrightarrow> priority_invariant (threads s')) \<and>
   (priority_invariant (threads s) \<and> UpdatePriority s t = Inr s'
      \<longrightarrow> priority_invariant (threads s')) \<and>
   (t < length (threads s) \<longrightarrow>
      (\<exists>s''. BoostPriority s t priority = Inr s'' \<and>
             current_priority (threads s'' ! t) = priority \<and>
             nominal_priority (threads s'' ! t) = nominal_priority (threads s ! t)))"
proof (intro conjI impI; (elim conjE)?)
  assume inv: "priority_invariant (threads s)"
    and r: "Create cfg s new_handle entry priority proc stack = Inr (s', Inr t)"
  show "priority_invariant (threads s')" using Create_invariant[OF r inv] .
next
  assume inv: "priority_invariant (threads s)" and r: "SetPriority cfg s t priority = Inr s'"
  let ?s0 = "upd_thread t (\<lambda>x. x\<lparr>nominal_priority := priority\<rparr>) s"
  from r have u: "UpdatePriority ?s0 t = Inr s'"
    by (auto simp: SetPriority_def split: if_splits)
  have "\<forall>i<length (threads ?s0). i \<noteq> t \<longrightarrow>
          current_priority (threads ?s0 ! i) \<le> nominal_priority (threads ?s0 ! i)"
    using priority_invariantD[OF inv] by (simp add: upd_thread_def)
  then show "priority_invariant (threads s')" by (rule UpdatePriority_invariant_but[OF u])
next
  assume inv: "priority_invariant (threads s)" and r: "AddMutexWaiter s owner thread = Inr s'"
  let ?s0 = "upd_thread owner (\<lambda>x. x\<lparr>wait_mutex_threads := wait_mutex_threads x @ [thread]\<rparr>)
               (upd_thread thread (\<lambda>x. x\<lparr>lock_owner := Some owner\<rparr>) s)"
  from r have "s' = s \<or> UpdatePriority ?s0 owner = Inr s'"
    by (auto simp: AddMutexWaiter_def Let_def split: if_splits)
  then show "priority_invariant (threads s')"
  proof
    assume "s' = s" then show ?thesis using inv by simp
  next
    assume u: "UpdatePriority ?s0 owner = Inr s'"
    have "\<forall>i<length (threads ?s0). 
            current_priority (threads ?s0 ! i) \<le> nominal_priority (threads ?s0 ! i)"
      using priority_invariantD[OF inv] by (simp add: upd_thread_keeps_priorities)
    then show ?thesis using UpdatePriority_invariant_but[OF u] by blast
  qed
next
  assume inv: "priority_invariant (threads s)" and r: "RemoveMutexWaiter s owner thread = Inr s'"
  let ?s0 = "upd_thread thread (\<lambda>x. x\<lparr>lock_owner := None\<rparr>)
               (upd_thread owner
                  (\<lambda>x. x\<lparr>wait_mutex_threads := removeAll thread (wait_mutex_threads x)\<rparr>) s)"
  from r have u: "UpdatePriority ?s0 owner = Inr s'"
    by (auto simp: RemoveMutexWaiter_def Let_def split: if_splits)
  have "\<forall>i<length (threads ?s0). 
          current_priority (threads ?s0 ! i) \<le> nominal_priority (threads ?s0 ! i)"
    using priority_invariantD[OF inv] by (simp add: upd_thread_keeps_priorities)
  then show "priority_invariant (threads s')" using UpdatePriority_invariant_but[OF u] by blast
next
  assume inv: "priority_invariant (threads s)" and u: "UpdatePriority s t = Inr s'"
  show "priority_invariant (threads s')"
    using UpdatePriority_invariant_but[OF u] priority_invariantD[OF inv] by blast
next
  assume "t < length (threads s)"
  then show "\<exists>s''. BoostPriority s t priority = Inr s'' \<and>
             current_priority (threads s'' ! t) = priority \<and>
             nominal_priority (threads s'' ! t) = nominal_priority (threads s ! t)"
    by (simp add: BoostPriority_def get_thread_def upd_thread_def emit_def)
qed

theorem priority_invariant_preserved_witness:
  "priority_invariant (threads chain_kernel) \<and>
   priority_invariant (threads unlinked_kernel) \<and>
   priority_invariant (threads (kernel_of [])) \<and>
   (\<exists>s' t. Create sample_config (kernel_of []) 1 0x8000 44 0 0x9000 = Inr (s', Inr t) \<and>
           priority_invariant (threads s')) \<and>
   (\<exists>s'. SetPriority sample_config chain_kernel 2 5 = Inr s' \<and> priority_invariant (threads s')) \<and>
   (\<exists>s'. AddMutexWaiter unlinked_kernel 0 1 = Inr s' \<and> priority_invariant (threads s')) \<and>
   (\<exists>s'. RemoveMutexWaiter chain_kernel 1 2 = Inr s' \<and> priority_invariant (threads s')) \<and>
   (\<exists>s'. UpdatePriority chain_kernel 1 = Inr s' \<and> priority_invariant (threads s')) \<and>
   (\<exists>s'. BoostPriority chain_kernel 2 40 = Inr s' \<and> current_priority (threads s' ! 2) = 40 \<and>
         nominal_priority (threads s' ! 2) = 10)"
proof -
  note defs = chain_kernel_def unlinked_kernel_def kernel_of_def waiting_thread_def
    sample_config_def upd_thread_def emit_def Let_def
  have i1: "priority_invariant (threads chain_kernel)"
    by (simp add: priority_invariant_def defs)
  have i2: "priority_invariant (threads unlinked_kernel)"
    by (simp add: priority_invariant_def defs)
  have i0: "priority_invariant (threads (kernel_of []))"
    by (simp add: priority_invariant_def defs)
  have "\<exists>z t. Create sample_config (kernel_of []) 1 0x8000 44 0 0x9000 = Inr (z, Inr t)"
    by (simp add: Create_def Scheduler_def GetFreeThreadLocalSlot_def defs)
  then obtain z tz where z: "Create sample_config (kernel_of []) 1 0x8000 44 0 0x9000 = Inr (z, Inr tz)"
    by blast
  have Z: "priority_invariant (threads z)"
    using priority_invariant_preserved[where s = "kernel_of []" and cfg = sample_config
        and new_handle = 1 and entry = "0x8000" and priority = 44 and proc = 0
        and stack = "0x9000" and s' = z and t = tz] i0 z by blast
  have "\<exists>a. SetPriority sample_config chain_kernel 2 5 = Inr a"
    by (simp add: SetPriority_def UpdatePriority.simps defs)
  then obtain a where a: "SetPriority sample_config chain_kernel 2 5 = Inr a" by blast
  have "\<exists>b. AddMutexWaiter unlinked_kernel 0 1 = Inr b"
    by (simp add: AddMutexWaiter_def UpdatePriority.simps defs)
  then obtain b where b: "AddMutexWaiter unlinked_kernel 0 1 = Inr b" by blast
  have "\<exists>c. RemoveMutexWaiter chain_kernel 1 2 = Inr c"
    by (simp add: RemoveMutexWaiter_def UpdatePriority.simps defs)
  then obtain c where c: "RemoveMutexWaiter chain_kernel 1 2 = Inr c" by blast
  have "\<exists>d. UpdatePriority chain_kernel 1 = Inr d"
    by (simp add: UpdatePriority.simps defs)
  then obtain d where d: "UpdatePriority chain_kernel 1 = Inr d" by blast
  have t: "2 < length (threads chain_kernel)" by (simp add: defs)
  have n: "nominal_priority (threads chain_kernel ! 2) = 10" by (simp add: defs)
  have A: "priority_invariant (threads a)"
    using priority_invariant_preserved[where s = chain_kernel and cfg = sample_config
        and t = 2 and priority = 5 and s' = a] i1 a by blast
  have B: "priority_invariant (threads b)"
    using priority_invariant_preserved[where s = unlinked_kernel and owner = 0
        and thread = 1 and s' = b] i2 b by blast
  have C: "priority_invariant (threads c)"
    using priority_invariant_preserved[where s = chain_kernel and owner = 1
        and thread = 2 and s' = c] i1 c by blast
  have D: "priority_invariant (threads d)"
    using priority_invariant_preserved[where s = chain_kernel and t = 1 and s' = d] i1 d
    by blast
  have E: "\<exists>s'. BoostPriority chain_kernel 2 40 = Inr s' \<and>
             current_priority (threads s' ! 2) = 40 \<and> nominal_priority (threads s' ! 2) = 10"
    using priority_invariant_preserved[where s = chain_kernel and t = 2 and priority = 40] t n
    by simp
  show ?thesis using i0 i1 i2 z a b c d Z A B C D E by blast
qed

text \<open>
  C3. The placement that \<open>ResumeFromWait\<close> performs is the one \<open>ChangeCore\<close> performs:
  resuming a thread from a wait gives the same kernel state, with the same scheduler
  calls in the same order, as marking it Ready, clearing its wakeup callback and
  calling \<open>ChangeCore\<close> with the thread's own ideal core and affinity mask. This holds
  for every affinity mask, ideal core, processor id and occupation of the cores,
  including the runs that end in a failed assertion or an index out of range.
\<close>

theorem ResumeFromWait_places_like_ChangeCore:
  assumes t: "t < length (threads s)" and st: "resumable (status (threads s ! t))"
    and wo: "wait_objects (threads s ! t) = []"
  shows "ResumeFromWait cfg s t =
           ChangeCore (upd_thread t (\<lambda>x. x\<lparr>wakeup_callback := None, status := Ready\<rparr>) s) t
             (ideal_core (threads s ! t)) (affinity_mask (threads s ! t))"
proof -
  let ?th1 = "(threads s ! t)\<lparr>wakeup_callback := None, status := Ready\<rparr>"
  let ?s1 = "upd_thread t (\<lambda>x. x\<lparr>wakeup_callback := None, status := Ready\<rparr>) s"
  have g1: "get_thread ?s1 t = Some ?th1"
    using t by (simp add: get_thread_upd_thread_same)
  have g0: "get_thread s t = Some (threads s ! t)"
    using t by (simp add: get_thread_def)
  have same: "?th1\<lparr>ideal_core := ideal_core (threads s ! t),
                      affinity_mask := affinity_mask (threads s ! t)\<rparr> = ?th1"
    by simp
  have nr: "status (threads s ! t) \<noteq> Ready" "status (threads s ! t) \<noteq> Running"
    "status (threads s ! t) \<noteq> Dead"
    using st by (simp_all add: resumable_def)
  show ?thesis
    unfolding ResumeFromWait_def ChangeCore_def g1 g0 option.case Let_def same
    by (simp add: nr wo bindF_def emit_upd_thread upd_thread_const_twice if_upd_thread
        split del: if_split cong: option.case_cong if_cong sum.case_cong)
qed

theorem ResumeFromWait_places_like_ChangeCore_witness:
  "0 < length (threads placement_kernel) \<and>
   resumable (status (threads placement_kernel ! 0)) \<and>
   wait_objects (threads placement_kernel ! 0) = [] \<and>
   ResumeFromWait sample_config placement_kernel 0 =
     ChangeCore (upd_thread 0 (\<lambda>x. x\<lparr>wakeup_callback := None, status := Ready\<rparr>) placement_kernel)
       0 2 0xF \<and>
   (\<exists>s'. ResumeFromWait sample_config placement_kernel 0 = Inr s' \<and>
      events s' = [RemoveThread 0 0, AddThread 2 0 20, UnscheduleThread 0 0 20,
                   ScheduleThread 2 0 20, PrepareReschedule 2])"
proof -
  note defs = placement_kernel_def kernel_of_def waiting_thread_def
  have 1: "0 < length (threads placement_kernel)" by (simp add: defs)
  have 2: "resumable (status (threads placement_kernel ! 0))" by (simp add: defs resumable_def)
  have 3: "wait_objects (threads placement_kernel ! 0) = []" by (simp add: defs)
  have i: "ideal_core (threads placement_kernel ! 0) = 2" by (simp add: defs)
  have m: "affinity_mask (threads placement_kernel ! 0) = 0xF" by (simp add: defs)
  have e: "\<exists>s'. ResumeFromWait sample_config placement_kernel 0 = Inr s' \<and>
      events s' = [RemoveThread 0 0, AddThread 2 0 20, UnscheduleThread 0 0 20,
                   ScheduleThread 2 0 20, PrepareReschedule 2]"
    by (simp add: defs ResumeFromWait_def get_thread_def GetNextProcessorId_def Scheduler_def
          CpuCore_def bindF_def emit_def upd_thread_def Let_def)
  show ?thesis
    using ResumeFromWait_places_like_ChangeCore[OF 1 2 3, of sample_config] 1 2 3 e
    unfolding i m by simp
qed

text \<open>
  C4. A thread whose ideal core \<open>C\<close> is one of the cores (and below 4, the bound the
  code asserts on the chosen core) and idle is placed on \<open>C\<close> by
  \<open>ResumeFromWait\<close>, whatever its affinity mask, its previous processor and the state
  of the other cores: the call returns, the thread is Ready, its processor id and
  scheduler are \<open>C\<close>, and the scheduler calls are those of a move to \<open>C\<close>.
\<close>

theorem ResumeFromWait_ideal_core:
  assumes t: "t < length (threads s)" and st: "resumable (status (threads s ! t))"
    and wo: "wait_objects (threads s ! t) = []"
    and c0: "0 \<le> sint (ideal_core (threads s ! t))"
    and c4: "sint (ideal_core (threads s ! t)) < 4"
    and cn: "nat (sint (ideal_core (threads s ! t))) < length (cores s)"
    and idle: "cores s ! nat (sint (ideal_core (threads s ! t))) = None"
  shows "\<exists>s'. ResumeFromWait cfg s t = Inr s' \<and>
           status (threads s' ! t) = Ready \<and>
           processor_id (threads s' ! t) = ideal_core (threads s ! t) \<and>
           scheduler (threads s' ! t) = nat (sint (ideal_core (threads s ! t))) \<and>
           events s' = events s @
             (if ideal_core (threads s ! t) \<noteq> processor_id (threads s ! t)
              then [RemoveThread (scheduler (threads s ! t)) t,
                    AddThread (nat (sint (ideal_core (threads s ! t)))) t
                      (current_priority (threads s ! t))]
              else []) @
             [UnscheduleThread (scheduler (threads s ! t)) t (current_priority (threads s ! t)),
              ScheduleThread (nat (sint (ideal_core (threads s ! t)))) t
                (current_priority (threads s ! t)),
              PrepareReschedule (nat (sint (ideal_core (threads s ! t))))]"
proof -
  let ?th = "threads s ! t"
  let ?c = "nat (sint (ideal_core ?th))"
  have g0: "get_thread s t = Some ?th" using t by (simp add: get_thread_def)
  have nr: "status ?th \<noteq> Ready" "status ?th \<noteq> Running" "status ?th \<noteq> Dead"
    using st by (simp_all add: resumable_def)
  have ne: "ideal_core ?th \<noteq> - 1" using c0 by (rule sint_nonneg_not_minus1)
  have sch: "Scheduler s (ideal_core ?th) = Some ?c" using c0 cn by (simp add: Scheduler_def)
  have cpu: "CpuCore s' (ideal_core ?th) = Some ?c" if "cores s' = cores s" for s'
    using c0 cn that by (simp add: CpuCore_def)
  show ?thesis
    unfolding ResumeFromWait_def g0 option.case Let_def
    using t c4
    by (simp add: nr wo ne sch idle bindF_def cpu emit_def upd_thread_def)
qed

theorem ResumeFromWait_ideal_core_witness:
  "0 < length (threads placement_kernel) \<and>
   resumable (status (threads placement_kernel ! 0)) \<and>
   ideal_core (threads placement_kernel ! 0) = 2 \<and>
   affinity_mask (threads placement_kernel ! 0) = 0xF \<and>
   cores placement_kernel = [Some 1, None, None, None] \<and>
   (\<exists>s'. ResumeFromWait sample_config placement_kernel 0 = Inr s' \<and>
         status (threads s' ! 0) = Ready \<and> processor_id (threads s' ! 0) = 2 \<and>
         scheduler (threads s' ! 0) = 2)"
proof -
  note defs = placement_kernel_def kernel_of_def waiting_thread_def
  have 1: "0 < length (threads placement_kernel)" by (simp add: defs)
  have 2: "resumable (status (threads placement_kernel ! 0))" by (simp add: defs resumable_def)
  have 3: "wait_objects (threads placement_kernel ! 0) = []" by (simp add: defs)
  have i: "ideal_core (threads placement_kernel ! 0) = 2" by (simp add: defs)
  have 4: "0 \<le> sint (ideal_core (threads placement_kernel ! 0))" by (simp add: i)
  have 5: "sint (ideal_core (threads placement_kernel ! 0)) < 4" by (simp add: i)
  have 6: "nat (sint (ideal_core (threads placement_kernel ! 0))) < length (cores placement_kernel)"
    by (simp add: i) (simp add: defs)
  have 7: "cores placement_kernel ! nat (sint (ideal_core (threads placement_kernel ! 0))) = None"
    by (simp add: i) (simp add: defs)
  have m: "affinity_mask (threads placement_kernel ! 0) = 0xF" by (simp add: defs)
  have c: "cores placement_kernel = [Some 1, None, None, None]" by (simp add: defs)
  from ResumeFromWait_ideal_core[OF 1 2 3 4 5 6 7, of sample_config]
  show ?thesis using 1 2 i m c by auto
qed

text \<open>
  C5. On a thread that is already Ready, \<open>ResumeFromWait\<close> returns the kernel state it
  was given: no status change, no scheduler call. (With wait objects still registered
  or a wakeup callback still set the assertions of the function fail instead.)
\<close>

theorem ResumeFromWait_Ready_noop:
  assumes "t < length (threads s)" and "status (threads s ! t) = Ready"
  shows "ResumeFromWait cfg s t =
           (if wait_objects (threads s ! t) = [] \<and> wakeup_callback (threads s ! t) = None
            then Inr s else Inl AssertionFailed)"
  using assms by (simp add: ResumeFromWait_def get_thread_def)

theorem ResumeFromWait_Ready_noop_witness:
  "0 < length (threads ready_kernel) \<and> status (threads ready_kernel ! 0) = Ready \<and>
   ResumeFromWait sample_config ready_kernel 0 = Inr ready_kernel"
proof -
  note defs = ready_kernel_def kernel_of_def waiting_thread_def
  have 1: "0 < length (threads ready_kernel)" by (simp add: defs)
  have 2: "status (threads ready_kernel ! 0) = Ready" by (simp add: defs)
  have 3: "wait_objects (threads ready_kernel ! 0) = [] \<and>
           wakeup_callback (threads ready_kernel ! 0) = None" by (simp add: defs)
  show ?thesis using ResumeFromWait_Ready_noop[OF 1 2, of sample_config] 1 2 3 by simp
qed

text \<open>
  C7, as the code has it. A Dead thread with debug assertions compiled out: the call
  returns the state unchanged and no assertion fails.
\<close>

theorem ResumeFromWait_Dead_returns:
  "status (threads dead_kernel ! 0) = Dead \<and> \<not> debug_asserts sample_config \<and>
   ResumeFromWait sample_config dead_kernel 0 = Inr dead_kernel"
  by (simp add: dead_kernel_def kernel_of_def waiting_thread_def sample_config_def
        ResumeFromWait_def get_thread_def)

text \<open>
  C7, amended. Resuming a Dead or a Running thread fails an assertion where
  \<open>DEBUG_ASSERT_MSG\<close> is compiled in, and returns without any effect where it is not.
\<close>

theorem ResumeFromWait_Dead_or_Running:
  assumes "t < length (threads s)"
    and "status (threads s ! t) = Dead \<or> status (threads s ! t) = Running"
    and "wait_objects (threads s ! t) = []"
  shows "ResumeFromWait cfg s t = (if debug_asserts cfg then Inl AssertionFailed else Inr s)"
  using assms by (auto simp add: ResumeFromWait_def get_thread_def)

theorem ResumeFromWait_Dead_or_Running_witness:
  "0 < length (threads dead_kernel) \<and> status (threads dead_kernel ! 0) = Dead \<and>
   wait_objects (threads dead_kernel ! 0) = [] \<and>
   ResumeFromWait (sample_config\<lparr>debug_asserts := True\<rparr>) dead_kernel 0 = Inl AssertionFailed \<and>
   ResumeFromWait sample_config dead_kernel 0 = Inr dead_kernel"
proof -
  note defs = dead_kernel_def kernel_of_def waiting_thread_def
  have 1: "0 < length (threads dead_kernel)" by (simp add: defs)
  have 2: "status (threads dead_kernel ! 0) = Dead" by (simp add: defs)
  have 3: "wait_objects (threads dead_kernel ! 0) = []" by (simp add: defs)
  have d: "\<not> debug_asserts sample_config" by (simp add: sample_config_def)
  show ?thesis
    using ResumeFromWait_Dead_or_Running[OF 1 disjI1[OF 2] 3, of "sample_config\<lparr>debug_asserts := True\<rparr>"]
      ResumeFromWait_Dead_or_Running[OF 1 disjI1[OF 2] 3, of sample_config] 1 2 3 d
    by simp
qed

text \<open>
  C6, as the code has it. \<open>Stop\<close> has no guard on the Dead state around its teardown.
  In the run \<open>double_stop_run\<close> thread 1 is given the TLS slot that the first \<open>Stop\<close> of
  thread 0 freed (same address); the second \<open>Stop\<close> of thread 0 clears the slot's bit
  again, from \<open>[1]\<close> to \<open>[0]\<close>, while thread 1 is alive and uses it.
\<close>

theorem double_stop_frees_live_slot:
  "double_stop_run = Some (0, 1, 0x1000000, 0x1000000, Dormant, [1], [0])"
  by code_simp

text \<open>
  C6, amended. After a first \<open>Stop\<close> of a thread, in any later state where the thread
  object is as that call left it, a second \<open>Stop\<close> returns and makes exactly two calls
  out: it cancels the wakeup event (now for handle 0) and wakes the threads waiting on
  the thread. It does not unschedule the thread again and has no wait object to leave,
  since the thread is Dead and its list is empty. It does clear the thread's TLS slot
  bit again.
\<close>

theorem Stop_second_call:
  assumes first: "Stop cfg s0 t = Inr s1"
    and t: "t < length (threads s)" and same: "threads s ! t = threads s1 ! t"
    and pages: "length (tls_slots s1) \<le> length (tls_slots s)"
  shows "\<exists>s'. Stop cfg s t = Inr s' \<and>
           events s' = events s @ [UnscheduleEvent 0, WakeupAllWaitingThreads t] \<and>
           tls_slots s' = (tls_slots s)[tls_page_of cfg (tls_address (threads s ! t)) :=
              unset_bit (tls_slot_of cfg (tls_address (threads s ! t)))
                (tls_slots s ! tls_page_of cfg (tls_address (threads s ! t)))] \<and>
           \<not> bit (tls_slots s' ! tls_page_of cfg (tls_address (threads s ! t)))
                 (tls_slot_of cfg (tls_address (threads s ! t)))"
proof -
  note f = Stop_first[OF first]
  have th: "threads s ! t = (threads s0 ! t)\<lparr>callback_handle := 0, status := Dead, wait_objects := []\<rparr>"
    using same f(2) by simp
  have dead: "status (threads s ! t) = Dead" and wo: "wait_objects (threads s ! t) = []"
    and h: "callback_handle (threads s ! t) = 0"
    and a: "tls_address (threads s ! t) = tls_address (threads s0 ! t)"
    by (simp_all add: th)
  have pg: "tls_page_of cfg (tls_address (threads s ! t)) < length (tls_slots s)"
    using f(6) f(3) pages by (simp add: a)
  have sl: "tls_slot_of cfg (tls_address (threads s ! t)) < 8"
    using f(7) by (simp add: a)
  show ?thesis
    using Stop_again[OF t dead wo f(4) f(5) pg sl] unfolding h by blast
qed

theorem Stop_second_call_witness:
  "\<exists>s1 s'. Stop sample_config tls_kernel 0 = Inr s1 \<and>
      events s1 = [UnscheduleEvent 7, UnscheduleThread 0 0 20, WakeupAllWaitingThreads 0] \<and>
      tls_slots s1 = [0] \<and>
      Stop sample_config (s1\<lparr>tls_slots := [1]\<rparr>) 0 = Inr s' \<and>
      events s' = events s1 @ [UnscheduleEvent 0, WakeupAllWaitingThreads 0] \<and>
      tls_slots s' = [0]"
proof -
  note defs = tls_kernel_def kernel_of_def waiting_thread_def sample_config_def
  have "\<exists>s1. Stop sample_config tls_kernel 0 = Inr s1 \<and>
      events s1 = [UnscheduleEvent 7, UnscheduleThread 0 0 20, WakeupAllWaitingThreads 0] \<and>
      tls_slots s1 = [0] \<and> length (threads s1) = 1 \<and>
      tls_address (threads s1 ! 0) = 0x1000000"
    by (simp add: defs Stop_def get_thread_def emit_def upd_thread_def Let_def unset_bit_0_1)
  then obtain s1 where s1: "Stop sample_config tls_kernel 0 = Inr s1"
    and e1: "events s1 = [UnscheduleEvent 7, UnscheduleThread 0 0 20, WakeupAllWaitingThreads 0]"
    and t1: "tls_slots s1 = [0]" and l1: "length (threads s1) = 1"
    and a1: "tls_address (threads s1 ! 0) = 0x1000000"
    by blast
  have pg: "tls_page_of sample_config 0x1000000 = 0" and sl: "tls_slot_of sample_config 0x1000000 = 0"
    by (simp_all add: tls_page_of_def tls_slot_of_def sample_config_def)
  have "\<exists>s'. Stop sample_config (s1\<lparr>tls_slots := [1]\<rparr>) 0 = Inr s' \<and>
          events s' = events (s1\<lparr>tls_slots := [1]\<rparr>) @ [UnscheduleEvent 0, WakeupAllWaitingThreads 0] \<and>
          tls_slots s' = [unset_bit 0 1]"
    using Stop_second_call[OF s1, of "s1\<lparr>tls_slots := [1]\<rparr>"] l1 t1
    by (simp add: a1 pg sl) blast
  then show ?thesis using s1 e1 t1 by (auto simp: unset_bit_0_1)
qed

text \<open>
  C9. When the timer fires for a thread in \<open>WaitSynchAny\<close>, \<open>WaitSynchAll\<close> or
  \<open>WaitHLEEvent\<close>, the state \<open>s1\<close> in which the wakeup callback runs is the one where
  the thread has left the waiter list of each of its wait objects, in order, and its
  own \<open>wait_objects\<close> is empty; the callback is called with \<open>Timeout\<close>. After the
  address waits are cleared, \<open>ResumeFromWait\<close> runs exactly when the callback returned
  true, or when there is no callback.
\<close>

theorem ThreadWakeupCallback_synch_timeout:
  assumes h: "map_of (wakeup_callback_handle_table s) (ucast thread_handle) = Some t"
    and t: "t < length (threads s)"
    and st: "status (threads s ! t) = WaitSynchAny \<or> status (threads s ! t) = WaitSynchAll \<or>
             status (threads s ! t) = WaitHLEEvent"
  shows "let s1 = remove_from_wait_objects s t in
           wait_objects (threads s1 ! t) = [] \<and>
           events s1 = events s @
             map (\<lambda>obj. RemoveWaitingThread obj t) (wait_objects (threads s ! t)) \<and>
           (\<forall>run_callback.
              ThreadWakeupCallback cfg run_callback s thread_handle =
                (case wakeup_callback (threads s ! t) of
                   None \<Rightarrow> bindF (clear_address_waits s1 t) (\<lambda>s'. ResumeFromWait cfg s' t)
                 | Some cb \<Rightarrow>
                     bindF (clear_address_waits (snd (run_callback cb Timeout t s1)) t)
                       (\<lambda>s'. if fst (run_callback cb Timeout t s1)
                             then ResumeFromWait cfg s' t else Inr s')))"
proof -
  have g: "get_thread s t = Some (threads s ! t)" using t by (simp add: get_thread_def)
  have w: "wait_objects (threads (remove_from_wait_objects s t) ! t) = []"
    using t by (simp add: remove_from_wait_objects_threads)
  have eq: "ThreadWakeupCallback cfg run_callback s thread_handle =
                (case wakeup_callback (threads s ! t) of
                   None \<Rightarrow> bindF (clear_address_waits (remove_from_wait_objects s t) t)
                             (\<lambda>s'. ResumeFromWait cfg s' t)
                 | Some cb \<Rightarrow>
                     bindF (clear_address_waits
                              (snd (run_callback cb Timeout t (remove_from_wait_objects s t))) t)
                       (\<lambda>s'. if fst (run_callback cb Timeout t (remove_from_wait_objects s t))
                             then ResumeFromWait cfg s' t else Inr s'))" for run_callback
    using st unfolding ThreadWakeupCallback_def h g option.case Let_def
    by (auto simp: case_prod_beta split: option.splits)
  show ?thesis
    unfolding Let_def using w remove_from_wait_objects_events eq by blast
qed

theorem ThreadWakeupCallback_synch_timeout_witness:
  "(\<exists>s'. ThreadWakeupCallback sample_config veto_unless_one (synch_kernel (Some 1)) 7 = Inr s' \<and>
         status (threads s' ! 0) = Ready \<and> wait_objects (threads s' ! 0) = [] \<and>
         events s' = [RemoveWaitingThread 5 0, RemoveWaitingThread 6 0, UnscheduleThread 0 0 20,
                      ScheduleThread 0 0 20, PrepareReschedule 0]) \<and>
   (\<exists>s'. ThreadWakeupCallback sample_config veto_unless_one (synch_kernel (Some 0)) 7 = Inr s' \<and>
         status (threads s' ! 0) = WaitSynchAny \<and> wait_objects (threads s' ! 0) = [] \<and>
         events s' = [RemoveWaitingThread 5 0, RemoveWaitingThread 6 0]) \<and>
   (\<exists>s'. ThreadWakeupCallback sample_config veto_unless_one (synch_kernel None) 7 = Inr s' \<and>
         status (threads s' ! 0) = Ready \<and> wait_objects (threads s' ! 0) = [] \<and>
         events s' = [RemoveWaitingThread 5 0, RemoveWaitingThread 6 0, UnscheduleThread 0 0 20,
                      ScheduleThread 0 0 20, PrepareReschedule 0])"
proof -
  note defs = synch_kernel_def kernel_of_def waiting_thread_def
  note run = remove_from_wait_objects_def clear_address_waits_def ResumeFromWait_def
    veto_unless_one_def get_thread_def GetNextProcessorId_def Scheduler_def CpuCore_def
    bindF_def emit_def upd_thread_def Let_def
  have h: "map_of (wakeup_callback_handle_table (synch_kernel cb)) (ucast (7 :: 64 word)) = Some 0"
    for cb by (simp add: defs)
  have t: "0 < length (threads (synch_kernel cb))" for cb by (simp add: defs)
  have st: "status (threads (synch_kernel cb) ! 0) = WaitSynchAny \<or>
            status (threads (synch_kernel cb) ! 0) = WaitSynchAll \<or>
            status (threads (synch_kernel cb) ! 0) = WaitHLEEvent" for cb by (simp add: defs)
  have cb: "wakeup_callback (threads (synch_kernel cb) ! 0) = cb" for cb by (simp add: defs)
  have inst: "ThreadWakeupCallback sample_config veto_unless_one (synch_kernel c) 7 =
      (case c of
         None \<Rightarrow> bindF (clear_address_waits (remove_from_wait_objects (synch_kernel c) 0) 0)
                   (\<lambda>s'. ResumeFromWait sample_config s' 0)
       | Some cb \<Rightarrow>
           bindF (clear_address_waits
                    (snd (veto_unless_one cb Timeout 0 (remove_from_wait_objects (synch_kernel c) 0))) 0)
             (\<lambda>s'. if fst (veto_unless_one cb Timeout 0 (remove_from_wait_objects (synch_kernel c) 0))
                   then ResumeFromWait sample_config s' 0 else Inr s'))" for c
    using ThreadWakeupCallback_synch_timeout[OF h[of c] t[of c] st[of c], where cfg = sample_config]
    unfolding Let_def cb by blast
  have 1: "\<exists>s'. ThreadWakeupCallback sample_config veto_unless_one (synch_kernel (Some 1)) 7 = Inr s' \<and>
         status (threads s' ! 0) = Ready \<and> wait_objects (threads s' ! 0) = [] \<and>
         events s' = [RemoveWaitingThread 5 0, RemoveWaitingThread 6 0, UnscheduleThread 0 0 20,
                      ScheduleThread 0 0 20, PrepareReschedule 0]"
    unfolding inst[of "Some 1"] by (simp add: defs run)
  have 2: "\<exists>s'. ThreadWakeupCallback sample_config veto_unless_one (synch_kernel (Some 0)) 7 = Inr s' \<and>
         status (threads s' ! 0) = WaitSynchAny \<and> wait_objects (threads s' ! 0) = [] \<and>
         events s' = [RemoveWaitingThread 5 0, RemoveWaitingThread 6 0]"
    unfolding inst[of "Some 0"] by (simp add: defs run)
  have 3: "\<exists>s'. ThreadWakeupCallback sample_config veto_unless_one (synch_kernel None) 7 = Inr s' \<and>
         status (threads s' ! 0) = Ready \<and> wait_objects (threads s' ! 0) = [] \<and>
         events s' = [RemoveWaitingThread 5 0, RemoveWaitingThread 6 0, UnscheduleThread 0 0 20,
                      ScheduleThread 0 0 20, PrepareReschedule 0]"
    unfolding inst[of None] by (simp add: defs run)
  show ?thesis using 1 2 3 by blast
qed

text \<open>
  C10. \<open>Create\<close> answers a priority above \<open>THREADPRIO_LOWEST\<close> with
  \<open>ERR_OUT_OF_RANGE\<close>, a processor id above \<open>THREADPROCESSORID_MAX\<close> with an out-of-range
  code (\<open>ERR_OUT_OF_RANGE_KERNEL\<close>, unless the priority check came first), and an entry
  point that is not a valid address with a result code (\<open>ResultCode(-1)\<close> when the two
  earlier checks pass). In each case the kernel state is the one it was given: no
  thread is made.
\<close>

theorem Create_rejects_invalid_arguments:
  "(priority > THREADPRIO_LOWEST cfg \<longrightarrow>
      Create cfg s new_handle entry priority proc stack = Inr (s, Inl ERR_OUT_OF_RANGE)) \<and>
   (sint proc > THREADPROCESSORID_MAX cfg \<longrightarrow>
      Create cfg s new_handle entry priority proc stack =
        Inr (s, Inl (if priority > THREADPRIO_LOWEST cfg then ERR_OUT_OF_RANGE
                     else ERR_OUT_OF_RANGE_KERNEL))) \<and>
   (\<not> IsValidVirtualAddress cfg entry \<longrightarrow>
      Create cfg s new_handle entry priority proc stack =
        Inr (s, Inl (if priority > THREADPRIO_LOWEST cfg then ERR_OUT_OF_RANGE
                     else if sint proc > THREADPROCESSORID_MAX cfg then ERR_OUT_OF_RANGE_KERNEL
                     else RawResultCode (- 1))))"
  by (simp add: Create_def)

theorem Create_rejects_invalid_arguments_witness:
  "64 > THREADPRIO_LOWEST sample_config \<and>
   Create sample_config (kernel_of []) 1 0x8000 64 0 0x9000 = Inr (kernel_of [], Inl ERR_OUT_OF_RANGE) \<and>
   sint (5 :: 32 word) > THREADPROCESSORID_MAX sample_config \<and>
   Create sample_config (kernel_of []) 1 0x8000 44 5 0x9000
     = Inr (kernel_of [], Inl ERR_OUT_OF_RANGE_KERNEL) \<and>
   \<not> IsValidVirtualAddress sample_config 0 \<and>
   Create sample_config (kernel_of []) 1 0 44 0 0x9000
     = Inr (kernel_of [], Inl (RawResultCode (- 1)))"
proof -
  have 1: "64 > THREADPRIO_LOWEST sample_config" by (simp add: sample_config_def)
  have 2: "sint (5 :: 32 word) > THREADPROCESSORID_MAX sample_config"
    by (simp add: sample_config_def)
  have 3: "\<not> IsValidVirtualAddress sample_config 0" by (simp add: sample_config_def)
  have 4: "\<not> 44 > THREADPRIO_LOWEST sample_config" by (simp add: sample_config_def)
  have 5: "\<not> sint (0 :: 32 word) > THREADPROCESSORID_MAX sample_config"
    by (simp add: sample_config_def)
  show ?thesis
    using Create_rejects_invalid_arguments[where priority = 64 and cfg = sample_config
        and s = "kernel_of []" and new_handle = 1 and entry = "0x8000" and proc = 0
        and stack = "0x9000"]
      Create_rejects_invalid_arguments[where priority = 44 and cfg = sample_config
        and s = "kernel_of []" and new_handle = 1 and entry = "0x8000" and proc = 5
        and stack = "0x9000"]
      Create_rejects_invalid_arguments[where priority = 44 and cfg = sample_config
        and s = "kernel_of []" and new_handle = 1 and entry = 0 and proc = 0
        and stack = "0x9000"]
      1 2 3 4 5
    by simp
qed

end
